theory Spec2Isabelle
  imports Complex_Main
begin

section \<open>JavaScript values\<close>

text \<open>
  The live tracking and estimation code of the dashboard is plain JavaScript over
  numbers, strings, \<open>null\<close> and \<open>undefined\<close>. A JavaScript number is an IEEE binary64
  value: here \<open>NaN\<close>, \<open>Infinity\<close>, \<open>-Infinity\<close>, or a finite value written as the real
  number it denotes. Every arithmetic operation rounds its exact result to the nearest
  binary64 value, a tie to the even significand, and overflows to an infinity. The sign
  of zero is not represented.
\<close>

datatype jsnum = NaN | PInf | NInf | Fin real

datatype jsval = Undefined | Null | JNum jsnum | JStr string

text \<open>ToBoolean: \<open>undefined\<close>, \<open>null\<close>, \<open>0\<close>, \<open>NaN\<close> and the empty string are falsy.\<close>

fun truthy :: "jsval \<Rightarrow> bool" where
  "truthy Undefined = False"
| "truthy Null = False"
| "truthy (JNum NaN) = False"
| "truthy (JNum PInf) = True"
| "truthy (JNum NInf) = True"
| "truthy (JNum (Fin x)) = (x \<noteq> 0)"
| "truthy (JStr s) = (s \<noteq> [])"

text \<open>The operator \<open>!\<close>.\<close>

definition falsy :: "jsval \<Rightarrow> bool" where
  "falsy v = (\<not> truthy v)"

text \<open>Unary minus is exact.\<close>

fun jneg :: "jsnum \<Rightarrow> jsnum" where
  "jneg NaN = NaN"
| "jneg PInf = NInf"
| "jneg NInf = PInf"
| "jneg (Fin x) = Fin (- x)"

subsection \<open>Rounding to binary64\<close>

text \<open>The nearest integer, a tie to the even one.\<close>

definition rne :: "real \<Rightarrow> int" where
  "rne q =
     (let f = \<lfloor>q\<rfloor> in
      if q - of_int f < 1 / 2 then f
      else if 1 / 2 < q - of_int f then f + 1
      else if even f then f else f + 1)"

text \<open>
  The exponent of the binade of a positive number, not below that of the smallest
  normal number; the significand has 53 bits, so neighbouring values of the binade are
  \<open>2 powi (binade x - 52)\<close> apart.
\<close>

definition binade :: "real \<Rightarrow> int" where
  "binade x = max \<lfloor>log 2 x\<rfloor> (- 1022)"

definition fl_val :: "real \<Rightarrow> real" where
  "fl_val x = of_int (rne (x / 2 powi (binade x - 52))) * 2 powi (binade x - 52)"

definition fl_pos :: "real \<Rightarrow> jsnum" where
  "fl_pos x = (if 2 ^ 1024 \<le> fl_val x then PInf else Fin (fl_val x))"

text \<open>The binary64 value of a real number.\<close>

definition fl :: "real \<Rightarrow> jsnum" where
  "fl x = (if x = 0 then Fin 0 else if 0 < x then fl_pos x else jneg (fl_pos (- x)))"

subsection \<open>Arithmetic and comparison on numbers\<close>

fun jadd :: "jsnum \<Rightarrow> jsnum \<Rightarrow> jsnum" where
  "jadd NaN b = NaN"
| "jadd a NaN = NaN"
| "jadd (Fin x) (Fin y) = fl (x + y)"
| "jadd PInf NInf = NaN"
| "jadd NInf PInf = NaN"
| "jadd PInf b = PInf"
| "jadd NInf b = NInf"
| "jadd (Fin x) PInf = PInf"
| "jadd (Fin x) NInf = NInf"

definition jsub :: "jsnum \<Rightarrow> jsnum \<Rightarrow> jsnum" where
  "jsub a b = jadd a (jneg b)"

text \<open>The sign of a product or quotient with an infinite operand.\<close>

definition signed_inf :: "bool \<Rightarrow> jsnum" where
  "signed_inf positive = (if positive then PInf else NInf)"

fun jmul :: "jsnum \<Rightarrow> jsnum \<Rightarrow> jsnum" where
  "jmul NaN b = NaN"
| "jmul a NaN = NaN"
| "jmul (Fin x) (Fin y) = fl (x * y)"
| "jmul (Fin x) PInf = (if x = 0 then NaN else signed_inf (0 < x))"
| "jmul (Fin x) NInf = (if x = 0 then NaN else signed_inf (x < 0))"
| "jmul PInf (Fin y) = (if y = 0 then NaN else signed_inf (0 < y))"
| "jmul NInf (Fin y) = (if y = 0 then NaN else signed_inf (y < 0))"
| "jmul PInf PInf = PInf"
| "jmul PInf NInf = NInf"
| "jmul NInf PInf = NInf"
| "jmul NInf NInf = PInf"

fun jdiv :: "jsnum \<Rightarrow> jsnum \<Rightarrow> jsnum" where
  "jdiv NaN b = NaN"
| "jdiv a NaN = NaN"
| "jdiv (Fin x) (Fin y) =
     (if y = 0 then (if x = 0 then NaN else signed_inf (0 < x)) else fl (x / y))"
| "jdiv (Fin x) PInf = Fin 0"
| "jdiv (Fin x) NInf = Fin 0"
| "jdiv PInf (Fin y) = signed_inf (0 \<le> y)"
| "jdiv NInf (Fin y) = signed_inf (y < 0)"
| "jdiv PInf b = NaN"
| "jdiv NInf b = NaN"

text \<open>The operators \<open><=\<close> and \<open>>\<close>: every comparison with \<open>NaN\<close> is false.\<close>

fun jle :: "jsnum \<Rightarrow> jsnum \<Rightarrow> bool" where
  "jle NaN b = False"
| "jle a NaN = False"
| "jle (Fin x) (Fin y) = (x \<le> y)"
| "jle NInf b = True"
| "jle a PInf = True"
| "jle PInf b = False"
| "jle (Fin x) NInf = False"

fun jgt :: "jsnum \<Rightarrow> jsnum \<Rightarrow> bool" where
  "jgt NaN b = False"
| "jgt a NaN = False"
| "jgt (Fin x) (Fin y) = (y < x)"
| "jgt NInf b = False"
| "jgt a PInf = False"
| "jgt PInf b = True"
| "jgt (Fin x) NInf = True"

text \<open>The operator \<open>==\<close> on numbers: \<open>NaN\<close> is not equal to itself.\<close>

definition jeq :: "jsnum \<Rightarrow> jsnum \<Rightarrow> bool" where
  "jeq a b = (a \<noteq> NaN \<and> a = b)"

text \<open>
  \<open>Math.round\<close> gives the nearest integer, a tie towards plus infinity; the result is
  exact.
\<close>

fun Math_round :: "jsnum \<Rightarrow> jsnum" where
  "Math_round (Fin x) = Fin (of_int \<lfloor>x + 1 / 2\<rfloor>)"
| "Math_round a = a"


text \<open>
  \<open>Math.sqrt\<close> is correctly rounded. \<open>Math.sin\<close>, \<open>Math.cos\<close>, \<open>Math.atan2\<close> and
  \<open>x ** 2\<close> are left to the implementation by the language; they are taken here as
  correctly rounded too. \<open>Math.PI\<close> is the binary64 value \<open>0x1.921fb54442d18p+1\<close>.
\<close>

fun Math_sin :: "jsnum \<Rightarrow> jsnum" where
  "Math_sin (Fin x) = fl (sin x)"
| "Math_sin a = NaN"

fun Math_cos :: "jsnum \<Rightarrow> jsnum" where
  "Math_cos (Fin x) = fl (cos x)"
| "Math_cos a = NaN"

fun Math_sqrt :: "jsnum \<Rightarrow> jsnum" where
  "Math_sqrt (Fin x) = (if x < 0 then NaN else fl (sqrt x))"
| "Math_sqrt PInf = PInf"
| "Math_sqrt a = NaN"

fun jsquare :: "jsnum \<Rightarrow> jsnum" where
  "jsquare (Fin x) = fl (x * x)"
| "jsquare NaN = NaN"
| "jsquare a = PInf"

definition Math_PI :: jsnum where
  "Math_PI = Fin (884279719003555 / 281474976710656)"

text \<open>The angle of the point \<open>(x, y)\<close>, in \<open>(-pi, pi]\<close>, for finite arguments.\<close>

definition atan2_real :: "real \<Rightarrow> real \<Rightarrow> real" where
  "atan2_real y x =
     (if 0 < x then arctan (y / x)
      else if x < 0 then (if 0 \<le> y then arctan (y / x) + pi else arctan (y / x) - pi)
      else if 0 < y then pi / 2
      else if y < 0 then - (pi / 2)
      else 0)"

fun Math_atan2 :: "jsnum \<Rightarrow> jsnum \<Rightarrow> jsnum" where
  "Math_atan2 NaN x = NaN"
| "Math_atan2 y NaN = NaN"
| "Math_atan2 (Fin y) (Fin x) = fl (atan2_real y x)"
| "Math_atan2 (Fin y) PInf = Fin 0"
| "Math_atan2 (Fin y) NInf = fl (if 0 \<le> y then pi else - pi)"
| "Math_atan2 PInf (Fin x) = fl (pi / 2)"
| "Math_atan2 NInf (Fin x) = fl (- (pi / 2))"
| "Math_atan2 PInf PInf = fl (pi / 4)"
| "Math_atan2 PInf NInf = fl (3 * pi / 4)"
| "Math_atan2 NInf PInf = fl (- (pi / 4))"
| "Math_atan2 NInf NInf = fl (- (3 * pi / 4))"

subsection \<open>Numbers and strings\<close>

definition digit_of :: "char \<Rightarrow> nat option" where
  "digit_of c =
     (let n = (of_char c :: nat) in if 48 \<le> n \<and> n \<le> 57 then Some (n - 48) else None)"

text \<open>The longest prefix of decimal digits, and what follows it.\<close>

fun digits :: "string \<Rightarrow> nat list \<times> string" where
  "digits [] = ([], [])"
| "digits (c # cs) =
     (case digit_of c of
        None \<Rightarrow> ([], c # cs)
      | Some d \<Rightarrow> (case digits cs of (ds, rest) \<Rightarrow> (d # ds, rest)))"

definition digits_value :: "nat list \<Rightarrow> nat" where
  "digits_value ds = foldl (\<lambda>a d. 10 * a + d) 0 ds"

text \<open>An exponent part \<open>e\<close>, optional sign, digits; it counts only when digits follow.\<close>

definition exponent_part :: "string \<Rightarrow> int" where
  "exponent_part r =
     (case r of
        [] \<Rightarrow> 0
      | c # t \<Rightarrow>
          if c = CHR ''e'' \<or> c = CHR ''E'' then
            (case (case t of
                     [] \<Rightarrow> (False, [])
                   | s # u \<Rightarrow>
                       if s = CHR ''-'' then (True, u)
                       else if s = CHR ''+'' then (False, u)
                       else (False, t)) of
               (negative, t') \<Rightarrow>
                 (case digits t' of
                    (ds, rest) \<Rightarrow>
                      if ds = [] then 0
                      else if negative then - int (digits_value ds)
                      else int (digits_value ds)))
          else 0)"

definition scale10 :: "real \<Rightarrow> int \<Rightarrow> real" where
  "scale10 m e = (if 0 \<le> e then m * 10 ^ nat e else m / 10 ^ nat (- e))"

text \<open>
  The longest prefix that is an unsigned decimal literal: \<open>Infinity\<close>, or digits with an
  optional fraction and exponent, read as the binary64 value nearest to the decimal value.
  No digit at all gives \<open>NaN\<close>.
\<close>

definition unsigned_literal :: "string \<Rightarrow> jsnum" where
  "unsigned_literal s =
     (if take 8 s = ''Infinity'' then PInf
      else
        (case digits s of
           (ip, r1) \<Rightarrow>
             (case (case r1 of
                      [] \<Rightarrow> ([], [])
                    | c # t \<Rightarrow> if c = CHR ''.'' then digits t else ([], r1)) of
                (fp, r2) \<Rightarrow>
                  if ip = [] \<and> fp = [] then NaN
                  else fl (scale10
                         (real (digits_value ip) + real (digits_value fp) / 10 ^ length fp)
                         (exponent_part r2)))))"

definition is_space :: "char \<Rightarrow> bool" where
  "is_space c =
     (c = CHR 0x09 \<or> c = CHR 0x0A \<or> c = CHR 0x0B \<or> c = CHR 0x0C \<or> c = CHR 0x0D
      \<or> c = CHR '' '')"

text \<open>
  \<open>parseFloat\<close> on a string: leading white space (the ASCII white space characters) is
  skipped, and text after the number is ignored.
\<close>

definition parseFloat_string :: "string \<Rightarrow> jsnum" where
  "parseFloat_string s =
     (case dropWhile is_space s of
        [] \<Rightarrow> NaN
      | c # t \<Rightarrow>
          if c = CHR ''-'' then jneg (unsigned_literal t)
          else if c = CHR ''+'' then unsigned_literal t
          else unsigned_literal (c # t))"

text \<open>
  \<open>parseFloat\<close> converts its argument to a string first. The string of a number reads
  back as the same number, and \<open>"null"\<close> and \<open>"undefined"\<close> do not start with a number.
\<close>

fun parseFloat :: "jsval \<Rightarrow> jsnum" where
  "parseFloat (JNum n) = n"
| "parseFloat (JStr s) = parseFloat_string s"
| "parseFloat Undefined = NaN"
| "parseFloat Null = NaN"

definition digit_char :: "nat \<Rightarrow> char" where
  "digit_char n = ''0123456789'' ! (n mod 10)"

fun show_nat :: "nat \<Rightarrow> string" where
  "show_nat n = (if n < 10 then [digit_char n] else show_nat (n div 10) @ [digit_char n])"

declare show_nat.simps [simp del]

text \<open>
  \<open>x.toFixed(2)\<close>: the decimal string of the exact value of \<open>x\<close> rounded to hundredths,
  a tie away from zero. (From \<open>10^21\<close> on JavaScript prints an exponent instead; the
  distances formatted here stay far below that.)
\<close>

fun toFixed2 :: "jsnum \<Rightarrow> string" where
  "toFixed2 NaN = ''NaN''"
| "toFixed2 PInf = ''Infinity''"
| "toFixed2 NInf = ''-Infinity''"
| "toFixed2 (Fin x) =
     (let n = nat \<lfloor>\<bar>x\<bar> * 100 + 1 / 2\<rfloor>
      in (if x < 0 then ''-'' else [])
         @ show_nat (n div 100) @ ''.'' @ [digit_char (n div 10), digit_char n])"


section \<open>Shipment form: distance and cost preview\<close>

subsection \<open>previewCost\<close>

text \<open>The three distance tiers and the weight surcharge of \<open>previewCost\<close>.\<close>

definition tier1 :: "jsnum \<Rightarrow> jsnum" where
  "tier1 d = jmul d (Fin 50)"

definition tier2 :: "jsnum \<Rightarrow> jsnum" where
  "tier2 d = jadd (Fin 500) (jmul (jsub d (Fin 10)) (Fin 40))"

definition tier3 :: "jsnum \<Rightarrow> jsnum" where
  "tier3 d = jadd (jadd (Fin 500) (Fin 1600)) (jmul (jsub d (Fin 50)) (Fin 30))"

definition distCost :: "jsnum \<Rightarrow> jsnum" where
  "distCost d =
     (if jle d (Fin 10) then tier1 d
      else if jle d (Fin 50) then tier2 d
      else tier3 d)"

definition surcharge :: "jsnum \<Rightarrow> jsnum" where
  "surcharge w =
     (if jgt w (Fin 20) then jmul (jdiv (jsub w (Fin 20)) (Fin 10)) (Fin 20) else Fin 0)"

definition previewCost :: "jsval \<Rightarrow> jsval \<Rightarrow> jsval" where
  "previewCost distKm weightKg =
     (if falsy distKm \<or> falsy weightKg then Null
      else
        (let d = parseFloat distKm;
             w = parseFloat weightKg
         in JNum (Math_round (jadd (jadd (Fin 200) (distCost d)) (surcharge w)))))"

subsection \<open>haversine\<close>

definition haversine :: "jsnum \<Rightarrow> jsnum \<Rightarrow> jsnum \<Rightarrow> jsnum \<Rightarrow> jsnum" where
  "haversine lat1 lon1 lat2 lon2 =
     (let R = Fin 6371;
          dL = jdiv (jmul (jsub lat2 lat1) Math_PI) (Fin 180);
          dN = jdiv (jmul (jsub lon2 lon1) Math_PI) (Fin 180);
          a = jadd (jsquare (Math_sin (jdiv dL (Fin 2))))
                (jmul
                   (jmul (Math_cos (jdiv (jmul lat1 Math_PI) (Fin 180)))
                         (Math_cos (jdiv (jmul lat2 Math_PI) (Fin 180))))
                   (jsquare (Math_sin (jdiv dN (Fin 2)))))
      in jmul (jmul R (Fin 2)) (Math_atan2 (Math_sqrt a) (Math_sqrt (jsub (Fin 1) a))))"

subsection \<open>The form and its live estimates\<close>

record form =
  origin_address :: string
  origin_latitude :: string
  origin_longitude :: string
  destination_address :: string
  destination_latitude :: string
  destination_longitude :: string
  recipient_name :: string
  recipient_phone :: string
  package_description :: string
  weight_kg :: string
  volume_m3 :: string

definition BLANK :: form where
  "BLANK =
     \<lparr>origin_address = [], origin_latitude = [], origin_longitude = [],
      destination_address = [], destination_latitude = [], destination_longitude = [],
      recipient_name = [], recipient_phone = [], package_description = [],
      weight_kg = [], volume_m3 = []\<rparr>"

text \<open>
  \<open>distKm\<close> is the string \<open>haversine(...).toFixed(2)\<close> when both latitudes are non-empty,
  and \<open>null\<close> otherwise. The distance line of step 2 is rendered when \<open>distKm\<close> is
  truthy.
\<close>

definition distKm :: "form \<Rightarrow> jsval" where
  "distKm f =
     (if truthy (JStr (origin_latitude f)) \<and> truthy (JStr (destination_latitude f))
      then JStr (toFixed2
             (haversine
                (parseFloat (JStr (origin_latitude f)))
                (parseFloat (JStr (origin_longitude f)))
                (parseFloat (JStr (destination_latitude f)))
                (parseFloat (JStr (destination_longitude f)))))
      else Null)"

text \<open>The cost card of step 3 is rendered when \<open>costKsh\<close> is truthy.\<close>

definition costKsh :: "form \<Rightarrow> jsval" where
  "costKsh f =
     (if truthy (distKm f) \<and> truthy (JStr (weight_kg f))
      then previewCost (distKm f) (JStr (weight_kg f))
      else Null)"


subsection \<open>The pricing rule as the specification words it\<close>

text \<open>
  The specification of \<open>estimateCost\<close>, on a float64 distance and weight: first 10 km at
  50 per km, the next 40 km at 40 per km, beyond 50 km at 30 per km; a base fee of 200;
  20 per 10 kg above 20 kg, prorated; the total rounded. Each operation of the formula
  is the binary64 one.
\<close>

definition spec_distCost :: "real \<Rightarrow> jsnum" where
  "spec_distCost d =
     (if d \<le> 10 then jmul (Fin d) (Fin 50)
      else if d \<le> 50 then jadd (Fin 500) (jmul (jsub (Fin d) (Fin 10)) (Fin 40))
      else jadd (jadd (Fin 500) (Fin 1600)) (jmul (jsub (Fin d) (Fin 50)) (Fin 30)))"

definition spec_surcharge :: "real \<Rightarrow> jsnum" where
  "spec_surcharge w =
     (if 20 < w then jmul (jdiv (jsub (Fin w) (Fin 20)) (Fin 10)) (Fin 20) else Fin 0)"

definition spec_estimateCost :: "real \<Rightarrow> real \<Rightarrow> jsnum" where
  "spec_estimateCost d w =
     Math_round (jadd (jadd (Fin 200) (spec_distCost d)) (spec_surcharge w))"

section \<open>Tracking map\<close>

subsection \<open>Tracking data\<close>

text \<open>
  The \<open>trackingData\<close> object of the component. A field that holds an object or an array
  is an option: \<open>None\<close> stands for \<open>null\<close> or a missing field.
\<close>

record named_point =
  lat :: jsval
  lng :: jsval
  address :: jsval

record route_sample =
  p_lat :: jsval
  p_lng :: jsval
  timestamp :: jsval
  speed :: jsval

record snapshot =
  shipment_id :: jsval
  tracking_number :: jsval
  status :: jsval
  origin :: "named_point option"
  destination :: "named_point option"
  route :: "route_sample list option"
  current_location :: "route_sample option"
  created_at :: jsval
  assigned_at :: jsval
  picked_up_at :: jsval
  delivered_at :: jsval

subsection \<open>Current position\<close>

text \<open>
  \<open>current_location || (route?.length ? route[route.length - 1] : null)\<close>; the result
  \<open>None\<close> is \<open>null\<close>, for which no driver marker is drawn.
\<close>

definition currentPos :: "snapshot \<Rightarrow> route_sample option" where
  "currentPos td =
     (case current_location td of
        Some c \<Rightarrow> Some c
      | None \<Rightarrow>
          (case route td of
             None \<Rightarrow> None
           | Some r \<Rightarrow> if length r \<noteq> 0 then Some (r ! (length r - 1)) else None))"

subsection \<open>Building the map\<close>

datatype marker_kind = Pickup | Delivery | Driver

datatype line_kind = Direct | Path

datatype layer =
    TileLayer
  | Marker marker_kind "jsval \<times> jsval"
  | Polyline line_kind "(jsval \<times> jsval) list"

text \<open>
  A map as \<open>buildMap\<close> has built it so far: the centre it was created with, the layers
  added to it in order, and the coordinates given to \<open>fitBounds\<close> once that call is
  reached.
\<close>

record leaflet_map =
  center :: "jsval \<times> jsval"
  layers :: "layer list"
  fit_bounds :: "(jsval \<times> jsval) list option"

text \<open>
  A run of \<open>buildMap\<close> ends with a map held in \<open>leafletMap.current\<close> (or none), and
  either returns or is cut short by an exception raised inside a Leaflet call.
\<close>

record outcome =
  map_after :: "leaflet_map option"
  raised :: bool

text \<open>\<open>origin?.lat\<close>.\<close>

definition opt_lat :: "named_point option \<Rightarrow> jsval" where
  "opt_lat p = (case p of None \<Rightarrow> Undefined | Some q \<Rightarrow> lat q)"

definition point_of :: "named_point \<Rightarrow> jsval \<times> jsval" where
  "point_of q = (lat q, lng q)"

definition sample_point :: "route_sample \<Rightarrow> jsval \<times> jsval" where
  "sample_point p = (p_lat p, p_lng p)"

text \<open>The truck marker: \<open>if (currentPos) { L.marker([currentPos.lat, currentPos.lng]) }\<close>.\<close>

definition driver_marker :: "snapshot \<Rightarrow> layer list" where
  "driver_marker td =
     (case currentPos td of None \<Rightarrow> [] | Some c \<Rightarrow> [Marker Driver (sample_point c)])"

text \<open>
  Leaflet is a library outside this program. Its part in \<open>buildMap\<close> is the parameter
  \<open>accepts\<close>: whether Leaflet takes a coordinate pair \<open>[lat, lng]\<close>, or raises an
  exception on it. A call that is handed a pair Leaflet does not take ends the run; the
  layer of that call is not added.
\<close>

fun coords :: "layer \<Rightarrow> (jsval \<times> jsval) list" where
  "coords TileLayer = []"
| "coords (Marker k p) = [p]"
| "coords (Polyline k ps) = ps"

text \<open>
  \<open>L.map(div, {center, ...})\<close>, after the old map has been removed and
  \<open>leafletMap.current\<close> set to \<open>null\<close>.
\<close>

definition create_map :: "(jsval \<times> jsval \<Rightarrow> bool) \<Rightarrow> jsval \<times> jsval \<Rightarrow> outcome" where
  "create_map accepts c =
     (if accepts c
      then \<lparr>map_after = Some \<lparr>center = c, layers = [], fit_bounds = None\<rparr>, raised = False\<rparr>
      else \<lparr>map_after = None, raised = True\<rparr>)"

definition add_layer :: "(jsval \<times> jsval \<Rightarrow> bool) \<Rightarrow> outcome \<Rightarrow> layer \<Rightarrow> outcome" where
  "add_layer accepts oc l =
     (case map_after oc of
        None \<Rightarrow> oc
      | Some m \<Rightarrow>
          if raised oc then oc
          else if list_all accepts (coords l)
          then oc\<lparr>map_after := Some (m\<lparr>layers := layers m @ [l]\<rparr>)\<rparr>
          else oc\<lparr>raised := True\<rparr>)"

definition fitBounds :: "(jsval \<times> jsval \<Rightarrow> bool) \<Rightarrow> (jsval \<times> jsval) list \<Rightarrow> outcome \<Rightarrow> outcome" where
  "fitBounds accepts cs oc =
     (case map_after oc of
        None \<Rightarrow> oc
      | Some m \<Rightarrow>
          if raised oc then oc
          else if list_all accepts cs
          then oc\<lparr>map_after := Some (m\<lparr>fit_bounds := Some cs\<rparr>)\<rparr>
          else oc\<lparr>raised := True\<rparr>)"

text \<open>
  \<open>buildMap\<close>, from the map node being mounted (\<open>mapDivRef.current\<close>), the tracking data
  and the map held in \<open>leafletMap.current\<close>. Each early \<open>return\<close> leaves the held map as
  it is. Past the guards the held map is removed, a new map is created at the origin, and
  the tile layer, the two markers, the direct line, the route line (for two samples or
  more), the truck marker and the viewport follow in this order.
\<close>

definition buildMap ::
  "(jsval \<times> jsval \<Rightarrow> bool) \<Rightarrow> bool \<Rightarrow> snapshot option \<Rightarrow> leaflet_map option \<Rightarrow> outcome" where
  "buildMap accepts mapDiv trackingData leafletMap =
     (case trackingData of
        None \<Rightarrow> \<lparr>map_after = leafletMap, raised = False\<rparr>
      | Some td \<Rightarrow>
          if \<not> mapDiv then \<lparr>map_after = leafletMap, raised = False\<rparr>
          else if falsy (opt_lat (origin td)) \<or> falsy (opt_lat (destination td))
          then \<lparr>map_after = leafletMap, raised = False\<rparr>
          else
            (case (origin td, destination td) of
               (Some og, Some ds) \<Rightarrow>
                 fitBounds accepts
                   ([point_of og, point_of ds]
                    @ (case route td of None \<Rightarrow> [] | Some r \<Rightarrow> map sample_point r))
                   (foldl (add_layer accepts) (create_map accepts (point_of og))
                      ([TileLayer,
                        Marker Pickup (point_of og),
                        Marker Delivery (point_of ds),
                        Polyline Direct [point_of og, point_of ds]]
                       @ (case route td of
                            None \<Rightarrow> []
                          | Some r \<Rightarrow>
                              if 2 \<le> length r then [Polyline Path (map sample_point r)]
                              else [])
                       @ driver_marker td))
             | _ \<Rightarrow> \<lparr>map_after = leafletMap, raised = False\<rparr>))"

text \<open>
  What is certain of Leaflet: a pair of two numbers, neither of them \<open>NaN\<close>, is taken
  (its \<open>LatLng\<close> constructor raises on \<open>isNaN(lat) || isNaN(lng)\<close> only). \<open>numbers_only\<close>
  takes these pairs and no other; it is the most refusing Leaflet there can be.
\<close>

fun is_number :: "jsval \<Rightarrow> bool" where
  "is_number (JNum n) = (n \<noteq> NaN)"
| "is_number v = False"

definition numbers_only :: "jsval \<times> jsval \<Rightarrow> bool" where
  "numbers_only p = (is_number (fst p) \<and> is_number (snd p))"

subsection \<open>Delivery timeline\<close>

record timeline_step =
  label :: string
  time :: jsval
  done_flag :: bool
  active :: bool

text \<open>\<open>trackingData?.field\<close> and the \<open>status\<close> destructured from \<open>trackingData || {}\<close>.\<close>

definition opt_field :: "(snapshot \<Rightarrow> jsval) \<Rightarrow> snapshot option \<Rightarrow> jsval" where
  "opt_field g trackingData = (case trackingData of None \<Rightarrow> Undefined | Some td \<Rightarrow> g td)"

definition timeline :: "snapshot option \<Rightarrow> timeline_step list" where
  "timeline trackingData =
     (let st = opt_field status trackingData in
      [\<lparr>label = ''Created'', time = opt_field created_at trackingData,
        done_flag = truthy (opt_field created_at trackingData),
        active = (st = JStr ''pending'')\<rparr>,
       \<lparr>label = ''Assigned'', time = opt_field assigned_at trackingData,
        done_flag = truthy (opt_field assigned_at trackingData),
        active = (st = JStr ''assigned'')\<rparr>,
       \<lparr>label = ''Transit'', time = opt_field picked_up_at trackingData,
        done_flag = truthy (opt_field picked_up_at trackingData),
        active = (st = JStr ''in_transit'')\<rparr>,
       \<lparr>label = ''Delivered'', time = opt_field delivered_at trackingData,
        done_flag = truthy (opt_field delivered_at trackingData),
        active = False\<rparr>])"


subsection \<open>Ticker and auto-refresh intervals\<close>

text \<open>
  The two effects of the component register intervals with the browser and return a
  cleanup that clears them. The view is modelled as a state machine in virtual time
  (milliseconds): the browser's table of active intervals, the cleanup that each effect
  left behind, and a count of how often each interval callback has run. The bodies of the
  callbacks (\<open>setTicker\<close>, \<open>onRefresh\<close>, the write to \<open>lastRefreshRef\<close>) touch no interval
  and are counted only.
\<close>

datatype callback = Ticker_cb | Refresh_cb

record interval =
  period :: nat
  due :: nat
  cb :: callback

record view =
  now :: nat
  timers :: "(nat \<times> interval) list"
  next_id :: nat
  mounted :: bool
  autoRefresh :: bool
  onRefresh :: "nat option"
  ticker_cleanup :: "nat option"
  refresh_cleanup :: "nat option"
  ticker_fired :: nat
  refresh_fired :: nat

text \<open>\<open>setInterval\<close> returns a fresh id; the first run is one period from now.\<close>

definition setInterval :: "callback \<Rightarrow> nat \<Rightarrow> view \<Rightarrow> nat \<times> view" where
  "setInterval c ms v =
     (next_id v,
      v\<lparr>timers := timers v @ [(next_id v, \<lparr>period = ms, due = now v + ms, cb = c\<rparr>)],
        next_id := Suc (next_id v)\<rparr>)"

definition clearInterval :: "nat \<Rightarrow> view \<Rightarrow> view" where
  "clearInterval i v = v\<lparr>timers := filter (\<lambda>t. fst t \<noteq> i) (timers v)\<rparr>"

text \<open>The first effect: the one-second ticker, with no dependencies.\<close>

definition ticker_effect :: "view \<Rightarrow> view" where
  "ticker_effect v =
     (case setInterval Ticker_cb 1000 v of (i, v') \<Rightarrow> v'\<lparr>ticker_cleanup := Some i\<rparr>)"

text \<open>
  The second effect: it returns at once, with no cleanup, unless \<open>autoRefresh\<close> is set
  and \<open>onRefresh\<close> is supplied; otherwise it starts the thirty-second interval.
\<close>

definition refresh_effect :: "view \<Rightarrow> view" where
  "refresh_effect v =
     (if autoRefresh v \<and> onRefresh v \<noteq> None
      then (case setInterval Refresh_cb 30000 v of (i, v') \<Rightarrow> v'\<lparr>refresh_cleanup := Some i\<rparr>)
      else v\<lparr>refresh_cleanup := None\<rparr>)"

definition run_cleanup :: "nat option \<Rightarrow> view \<Rightarrow> view" where
  "run_cleanup c v = (case c of None \<Rightarrow> v | Some i \<Rightarrow> clearInterval i v)"

text \<open>
  Mounting at time \<open>t\<close> runs both effects. A render with new props runs the cleanup and
  the body of the second effect again when one of its dependencies
  \<open>[autoRefresh, onRefresh]\<close> has changed; the first effect never runs again. Unmounting
  runs both cleanups.
\<close>

definition mount :: "nat \<Rightarrow> bool \<Rightarrow> nat option \<Rightarrow> view" where
  "mount t ar f =
     refresh_effect (ticker_effect
       \<lparr>now = t, timers = [], next_id = 0, mounted = True, autoRefresh = ar, onRefresh = f,
        ticker_cleanup = None, refresh_cleanup = None, ticker_fired = 0, refresh_fired = 0\<rparr>)"

definition rerender :: "bool \<Rightarrow> nat option \<Rightarrow> view \<Rightarrow> view" where
  "rerender ar f v =
     (if mounted v \<and> (ar \<noteq> autoRefresh v \<or> f \<noteq> onRefresh v)
      then refresh_effect ((run_cleanup (refresh_cleanup v) v)\<lparr>autoRefresh := ar, onRefresh := f\<rparr>)
      else v)"

definition unmount :: "view \<Rightarrow> view" where
  "unmount v =
     (if mounted v
      then (run_cleanup (refresh_cleanup v) (run_cleanup (ticker_cleanup v) v))
             \<lparr>mounted := False, ticker_cleanup := None, refresh_cleanup := None\<rparr>
      else v)"

text \<open>
  Virtual time: an interval due at or before the new time has run once at its due time
  and once per full period since.
\<close>

definition runs :: "nat \<Rightarrow> interval \<Rightarrow> nat" where
  "runs t iv = (if due iv \<le> t then Suc ((t - due iv) div period iv) else 0)"

definition reschedule :: "nat \<Rightarrow> interval \<Rightarrow> interval" where
  "reschedule t iv = iv\<lparr>due := due iv + runs t iv * period iv\<rparr>"

definition fired :: "callback \<Rightarrow> nat \<Rightarrow> (nat \<times> interval) list \<Rightarrow> nat" where
  "fired c t ts = sum_list (map (\<lambda>p. runs t (snd p)) (filter (\<lambda>p. cb (snd p) = c) ts))"

definition elapse :: "nat \<Rightarrow> view \<Rightarrow> view" where
  "elapse ms v =
     (let t = now v + ms in
      v\<lparr>now := t,
        timers := map (\<lambda>p. (fst p, reschedule t (snd p))) (timers v),
        ticker_fired := ticker_fired v + fired Ticker_cb t (timers v),
        refresh_fired := refresh_fired v + fired Refresh_cb t (timers v)\<rparr>)"

datatype event = Rerender bool "nat option" | Elapse nat | Unmount

fun step :: "event \<Rightarrow> view \<Rightarrow> view" where
  "step (Rerender ar f) v = rerender ar f v"
| "step (Elapse ms) v = elapse ms v"
| "step Unmount v = unmount v"

fun run :: "event list \<Rightarrow> view \<Rightarrow> view" where
  "run [] v = v"
| "run (e # es) v = run es (step e v)"


text \<open>
  The invariant of a view: every interval in the browser's table is the one whose id a
  pending cleanup holds, the refresh cleanup exists only while \<open>autoRefresh\<close> is set and
  \<open>onRefresh\<close> is supplied, and an unmounted view has no pending cleanup.
\<close>

definition owned :: "view \<Rightarrow> bool" where
  "owned v =
     ((\<forall>p \<in> set (timers v).
         (cb (snd p) = Ticker_cb \<and> ticker_cleanup v = Some (fst p))
         \<or> (cb (snd p) = Refresh_cb \<and> refresh_cleanup v = Some (fst p)))
      \<and> (refresh_cleanup v = None \<or> (autoRefresh v \<and> onRefresh v \<noteq> None))
      \<and> (mounted v \<or> (ticker_cleanup v = None \<and> refresh_cleanup v = None)))"

section \<open>Properties of the rounding\<close>

lemma rne_of_int: "rne (of_int n) = n"
  by (simp add: rne_def)

lemma rne_lower: "\<lfloor>q\<rfloor> \<le> rne q"
  by (simp add: rne_def Let_def)

lemma rne_upper: "rne q \<le> \<lfloor>q\<rfloor> + 1"
  by (simp add: rne_def Let_def)

lemma rne_mono:
  assumes "q \<le> r"
  shows "rne q \<le> rne r"
proof (cases "\<lfloor>q\<rfloor> = \<lfloor>r\<rfloor>")
  case True
  then show ?thesis using assms by (auto simp: rne_def Let_def)
next
  case False
  then have "\<lfloor>q\<rfloor> < \<lfloor>r\<rfloor>" using assms floor_mono [of q r] by linarith
  then have "rne q \<le> \<lfloor>r\<rfloor>" using rne_upper [of q] by linarith
  then show ?thesis using rne_lower [of r] by linarith
qed

lemma rne_ge: "of_int a \<le> q \<Longrightarrow> a \<le> rne q"
  using rne_mono [of "of_int a" q] by (simp add: rne_of_int)

lemma rne_le: "q \<le> of_int b \<Longrightarrow> rne q \<le> b"
  using rne_mono [of q "of_int b"] by (simp add: rne_of_int)

lemma floor_log2_iff:
  assumes "0 < x"
  shows "\<lfloor>log 2 x\<rfloor> = k \<longleftrightarrow> 2 powi k \<le> x \<and> x < 2 powi (k + 1)"
proof -
  have a: "(2::real) powr real_of_int k = 2 powi k" by (rule powr_real_of_int') simp_all
  have b: "(2::real) powr real_of_int (k + 1) = 2 powi (k + 1)" by (rule powr_real_of_int') simp_all
  have "\<lfloor>log 2 x\<rfloor> = k \<longleftrightarrow> 2 powr real_of_int k \<le> x \<and> x < 2 powr (real_of_int k + 1)"
    using assms floor_log_eq_powr_iff [of x 2 k] by simp
  then show ?thesis using a b by simp
qed

lemma binade_eq:
  assumes "0 < x" "2 powi k \<le> x" "x < 2 powi (k + 1)"
  shows "binade x = max k (- 1022)"
  using assms floor_log2_iff [of x k] by (simp add: binade_def)

lemma binade_upper:
  assumes "0 < x"
  shows "x < 2 powi (binade x + 1)"
proof -
  have "x < 2 powi (\<lfloor>log 2 x\<rfloor> + 1)" using floor_log2_iff [OF assms, of "\<lfloor>log 2 x\<rfloor>"] by simp
  also have "\<dots> \<le> 2 powi (binade x + 1)"
    by (rule power_int_increasing) (simp_all add: binade_def)
  finally show ?thesis .
qed

lemma binade_lower:
  assumes "0 < x" "- 1022 < binade x"
  shows "2 powi binade x \<le> x"
proof -
  have "binade x = \<lfloor>log 2 x\<rfloor>" using assms(2) by (simp add: binade_def max_def split: if_splits)
  then show ?thesis using floor_log2_iff [OF assms(1), of "\<lfloor>log 2 x\<rfloor>"] by simp
qed

lemma binade_mono:
  assumes "0 < x" "x \<le> y"
  shows "binade x \<le> binade y"
proof -
  have "log 2 x \<le> log 2 y" using assms by simp
  then have "\<lfloor>log 2 x\<rfloor> \<le> \<lfloor>log 2 y\<rfloor>" by (rule floor_mono)
  then show ?thesis by (simp add: binade_def)
qed


lemma two_powi_pos: "0 < (2::real) powi k"
  by (simp add: zero_less_power_int)

lemma two_powi_add: "(2::real) powi (a + b) = 2 powi a * 2 powi b"
  by (simp add: power_int_add)

lemma two_powi_53: "(2::real) powi (k + 1) = 2 ^ 53 * 2 powi (k - 52)"
proof -
  have "k + 1 = 53 + (k - 52)" by simp
  then have "(2::real) powi (k + 1) = 2 powi 53 * 2 powi (k - 52)"
    by (simp only: two_powi_add)
  then show ?thesis by simp
qed

lemma two_powi_52: "(2::real) powi k = 2 ^ 52 * 2 powi (k - 52)"
proof -
  have "k = 52 + (k - 52)" by simp
  then have "(2::real) powi k = 2 powi 52 * 2 powi (k - 52)"
    by (metis two_powi_add)
  then show ?thesis by simp
qed

lemma two_powi_less_imp:
  assumes "(2::real) powi a < 2 powi b"
  shows "a < b"
proof (rule ccontr)
  assume "\<not> a < b"
  then have "b \<le> a" by simp
  then have "(2::real) powi b \<le> 2 powi a" by (intro power_int_increasing) simp_all
  then show False using assms by simp
qed

lemma fl_val_nonneg:
  assumes "0 \<le> x"
  shows "0 \<le> fl_val x"
proof -
  have "0 \<le> x / 2 powi (binade x - 52)" using assms two_powi_pos [of "binade x - 52"] by simp
  then have "0 \<le> rne (x / 2 powi (binade x - 52))" using rne_ge [of 0] by simp
  then show ?thesis using two_powi_pos [of "binade x - 52"] by (simp add: fl_val_def)
qed

lemma fl_val_upper:
  assumes "0 < x"
  shows "fl_val x \<le> 2 powi (binade x + 1)"
proof -
  define e where "e = binade x - 52"
  define n where "n = rne (x / 2 powi e)"
  have p: "0 < (2::real) powi e" by (rule two_powi_pos)
  have t: "(2::real) powi (binade x + 1) = 2 ^ 53 * 2 powi e"
    unfolding e_def by (rule two_powi_53)
  have "x < 2 powi (binade x + 1)" using assms by (rule binade_upper)
  then have "x / 2 powi e < 2 ^ 53" using p t by (simp add: pos_divide_less_eq)
  then have "x / 2 powi e \<le> of_int (2 ^ 53)" by simp
  then have "n \<le> 2 ^ 53" unfolding n_def by (rule rne_le)
  then have "real_of_int n \<le> 2 ^ 53" by (metis of_int_le_iff of_int_numeral of_int_power)
  then have "real_of_int n * 2 powi e \<le> 2 ^ 53 * 2 powi e"
    using p by (rule mult_right_mono [OF _ less_imp_le])
  then show ?thesis unfolding fl_val_def t by (simp add: n_def e_def)
qed

lemma fl_val_lower:
  assumes "0 < x" "- 1022 < binade x"
  shows "2 powi binade x \<le> fl_val x"
proof -
  define e where "e = binade x - 52"
  define n where "n = rne (x / 2 powi e)"
  have p: "0 < (2::real) powi e" by (rule two_powi_pos)
  have t: "(2::real) powi binade x = 2 ^ 52 * 2 powi e"
    unfolding e_def by (rule two_powi_52)
  have "2 powi binade x \<le> x" using assms by (rule binade_lower)
  then have "2 ^ 52 \<le> x / 2 powi e" using p t by (simp add: pos_le_divide_eq)
  then have "of_int (2 ^ 52) \<le> x / 2 powi e" by simp
  then have "2 ^ 52 \<le> n" unfolding n_def by (rule rne_ge)
  then have "2 ^ 52 \<le> real_of_int n" by (metis of_int_le_iff of_int_numeral of_int_power)
  then have "2 ^ 52 * 2 powi e \<le> real_of_int n * 2 powi e"
    using p by (rule mult_right_mono [OF _ less_imp_le])
  then show ?thesis unfolding fl_val_def t by (simp add: n_def e_def)
qed

lemma fl_val_mono:
  assumes "0 < x" "x \<le> y"
  shows "fl_val x \<le> fl_val y"
proof (cases "binade x = binade y")
  case True
  define e where "e = binade y - 52"
  have p: "0 < (2::real) powi e" by (rule two_powi_pos)
  have "x / 2 powi e \<le> y / 2 powi e" using assms p by (simp add: divide_right_mono)
  then have "rne (x / 2 powi e) \<le> rne (y / 2 powi e)" by (rule rne_mono)
  then have "(of_int (rne (x / 2 powi e)) :: real) \<le> of_int (rne (y / 2 powi e))"
    by (simp only: of_int_le_iff)
  then have "(of_int (rne (x / 2 powi e)) :: real) * 2 powi e
      \<le> of_int (rne (y / 2 powi e)) * 2 powi e"
    using p by (simp only: mult_le_cancel_right_pos)
  then show ?thesis using True by (simp add: fl_val_def e_def)
next
  case False
  have y: "0 < y" using assms by simp
  have lt: "binade x < binade y" using False binade_mono [OF assms] by simp
  have "- 1022 \<le> binade x" by (simp add: binade_def)
  then have n: "- 1022 < binade y" using lt by simp
  have "fl_val x \<le> 2 powi (binade x + 1)" using assms(1) by (rule fl_val_upper)
  also have "\<dots> \<le> 2 powi binade y" using lt by (intro power_int_increasing) simp_all
  also have "\<dots> \<le> fl_val y" using y n by (rule fl_val_lower)
  finally show ?thesis .
qed

lemma fl_pos_mono:
  assumes "0 < x" "x \<le> y"
  shows "jle (fl_pos x) (fl_pos y)"
  using fl_val_mono [OF assms] by (auto simp: fl_pos_def)

lemma fl_pos_nonneg: "0 \<le> x \<Longrightarrow> jle (Fin 0) (fl_pos x)"
  using fl_val_nonneg [of x] by (simp add: fl_pos_def)

lemma jle_jneg: "jle a b \<Longrightarrow> jle (jneg b) (jneg a)"
  by (cases a; cases b) simp_all

lemma jle_trans: "jle a b \<Longrightarrow> jle b c \<Longrightarrow> jle a c"
  by (cases a; cases b; cases c) simp_all

lemma jle_refl: "a \<noteq> NaN \<Longrightarrow> jle a a"
  by (cases a) simp_all

lemma fl_not_NaN: "fl x \<noteq> NaN"
  by (simp add: fl_def fl_pos_def)

lemma fl_nonneg: "0 \<le> x \<Longrightarrow> jle (Fin 0) (fl x)"
  using fl_pos_nonneg [of x] by (simp add: fl_def)

lemma fl_nonpos: "x \<le> 0 \<Longrightarrow> jle (fl x) (Fin 0)"
  using jle_jneg [OF fl_pos_nonneg [of "- x"]] by (simp add: fl_def)

lemma fl_minus: "fl (- x) = jneg (fl x)"
  by (simp add: fl_def fl_pos_def)

lemma fl_mono:
  assumes "x \<le> y"
  shows "jle (fl x) (fl y)"
proof -
  consider "0 < x" | "x \<le> 0" "0 \<le> y" | "y < 0" using assms by linarith
  then show ?thesis
  proof cases
    case 1
    then show ?thesis using assms fl_pos_mono [of x y] by (simp add: fl_def)
  next
    case 2
    then show ?thesis using jle_trans [OF fl_nonpos fl_nonneg] by simp
  next
    case 3
    then have "jle (fl_pos (- y)) (fl_pos (- x))" using assms by (intro fl_pos_mono) simp_all
    then have "jle (jneg (fl_pos (- x))) (jneg (fl_pos (- y)))" by (rule jle_jneg)
    then show ?thesis using 3 assms by (simp add: fl_def)
  qed
qed

text \<open>Exactness on doubles.\<close>

lemma fl_val_exact:
  assumes "0 < m" "m < 2 ^ 53" "- 1074 \<le> e"
  shows "fl_val (of_int m * 2 powi e) = of_int m * 2 powi e"
proof -
  define x :: real where "x = of_int m * 2 powi e"
  have xpos: "0 < x" using assms(1) two_powi_pos [of e] by (simp add: x_def)
  define e' where "e' = binade x - 52"
  have "x < of_int (2 ^ 53) * 2 powi e"
    unfolding x_def using assms(2) two_powi_pos [of e] by (simp only: mult_less_cancel_right_pos of_int_less_iff)
  also have "\<dots> = 2 powi (e + 53)" by (simp add: two_powi_add)
  finally have xl: "x < 2 powi (e + 53)" .
  have le: "e' \<le> e"
  proof (cases "- 1022 < binade x")
    case True
    have "2 powi binade x \<le> x" using xpos True by (rule binade_lower)
    then have "(2::real) powi binade x < 2 powi (e + 53)" using xl by linarith
    then have "binade x < e + 53" by (rule two_powi_less_imp)
    then show ?thesis by (simp add: e'_def)
  next
    case False
    then have "binade x = - 1022" by (simp add: binade_def max_def split: if_splits)
    then show ?thesis using assms(3) by (simp add: e'_def)
  qed
  have "x / 2 powi e' = of_int m * 2 powi (e - e')"
    by (simp add: x_def power_int_diff)
  also have "\<dots> = of_int m * 2 ^ nat (e - e')" using le by (simp add: power_int_nonneg_exp)
  also have "\<dots> = of_int (m * 2 ^ nat (e - e'))" by simp
  finally have q: "x / 2 powi e' = of_int (m * 2 ^ nat (e - e'))" .
  have "rne (x / 2 powi e') = m * 2 ^ nat (e - e')" unfolding q by (rule rne_of_int)
  then have "of_int (rne (x / 2 powi e')) * 2 powi e' = x"
    using q two_powi_pos [of e'] by (simp add: field_simps)
  then show ?thesis by (simp add: fl_val_def e'_def x_def)
qed


lemma fl_pos_exact:
  assumes "0 < m" "m < 2 ^ 53" "- 1074 \<le> e" "of_int m * 2 powi e < (2::real) ^ 1024"
  shows "fl (of_int m * 2 powi e) = Fin (of_int m * 2 powi e)"
proof -
  have "0 < real_of_int m * 2 powi e" using assms(1) two_powi_pos [of e] by simp
  then show ?thesis
    using fl_val_exact [OF assms(1-3)] assms(4) by (simp add: fl_def fl_pos_def)
qed

lemma fl_of_int:
  assumes "\<bar>n\<bar> < 2 ^ 53"
  shows "fl (of_int n) = Fin (of_int n)"
proof -
  have big: "(2::real) ^ 53 \<le> 2 ^ 1024" by (rule power_increasing) simp_all
  have pos: "fl (of_int k) = Fin (of_int k)" if k: "0 < k" "k < 2 ^ 53" for k :: int
  proof -
    have "real_of_int k < 2 ^ 53" using k(2) by (metis of_int_less_iff of_int_numeral of_int_power)
    then have "real_of_int k * 2 powi 0 < 2 ^ 1024" using big by simp
    then show ?thesis using fl_pos_exact [of k 0] k by simp
  qed
  consider "n = 0" | "0 < n" | "n < 0" by linarith
  then show ?thesis
  proof cases
    case 1
    then show ?thesis by (simp add: fl_def)
  next
    case 2
    then show ?thesis using pos [of n] assms by simp
  next
    case 3
    then have "fl (of_int (- n)) = Fin (of_int (- n))" using pos [of "- n"] assms by simp
    then have "jneg (fl (of_int n)) = Fin (- of_int n)" using fl_minus [of "of_int n"] by simp
    then show ?thesis by (cases "fl (of_int n)") simp_all
  qed
qed

lemma fl_numeral [simp]: "numeral k < (2::int) ^ 53 \<Longrightarrow> fl (numeral k) = Fin (numeral k)"
  using fl_of_int [of "numeral k"] by simp

lemma fl_neg_numeral [simp]:
  "numeral k < (2::int) ^ 53 \<Longrightarrow> fl (- numeral k) = Fin (- numeral k)"
  using fl_of_int [of "- numeral k"] by simp

lemma fl_0 [simp]: "fl 0 = Fin 0"
  by (simp add: fl_def)

lemma fl_1 [simp]: "fl 1 = Fin 1"
  using fl_of_int [of 1] by simp

lemma fl_half:
  assumes "\<bar>n\<bar> < 2 ^ 53"
  shows "fl (of_int n / 2) = Fin (of_int n / 2)"
proof -
  have big: "(2::real) ^ 53 \<le> 2 ^ 1024" by (rule power_increasing) simp_all
  have pos: "fl (of_int k / 2) = Fin (of_int k / 2)" if k: "0 < k" "k < 2 ^ 53" for k :: int
  proof -
    have "real_of_int k < 2 ^ 53" using k(2) by (metis of_int_less_iff of_int_numeral of_int_power)
    then have "real_of_int k * 2 powi (- 1) < 2 ^ 1024" using big k(1) by (simp add: power_int_minus)
    then show ?thesis using fl_pos_exact [of k "- 1"] k by (simp add: power_int_minus)
  qed
  consider "n = 0" | "0 < n" | "n < 0" by linarith
  then show ?thesis
  proof cases
    case 1
    then show ?thesis by (simp add: fl_def)
  next
    case 2
    then show ?thesis using pos [of n] assms by simp
  next
    case 3
    then have "fl (of_int (- n) / 2) = Fin (of_int (- n) / 2)" using pos [of "- n"] assms by simp
    then have "jneg (fl (of_int n / 2)) = Fin (- (of_int n / 2))"
      using fl_minus [of "of_int n / 2"] by simp
    then show ?thesis by (cases "fl (of_int n / 2)") simp_all
  qed
qed

lemma fl_numeral_half [simp]:
  "numeral k < (2::int) ^ 53 \<Longrightarrow> fl (numeral k / 2) = Fin (numeral k / 2)"
  using fl_half [of "numeral k"] by simp

lemma fl_one_half [simp]: "fl (1 / 2) = Fin (1 / 2)"
  using fl_half [of 1] by simp

text \<open>Evaluating the rounding of a number that lies in a known binade.\<close>

lemma fl_eval:
  assumes "2 powi k \<le> x" "x < 2 powi (k + 1)" "- 1022 \<le> k"
  shows "fl x =
    (if 2 ^ 1024 \<le> of_int (rne (x / 2 powi (k - 52))) * (2::real) powi (k - 52) then PInf
     else Fin (of_int (rne (x / 2 powi (k - 52))) * 2 powi (k - 52)))"
proof -
  have x: "0 < x" using assms(1) two_powi_pos [of k] by linarith
  have "binade x = k" using binade_eq [OF x assms(1,2)] assms(3) by simp
  then show ?thesis using x by (simp add: fl_def fl_pos_def fl_val_def)
qed

lemma fl_between:
  assumes "a \<le> x" "x \<le> b" "fl a = Fin a'" "fl b = Fin b'"
  shows "\<exists>y. fl x = Fin y \<and> a' \<le> y \<and> y \<le> b'"
proof -
  have "jle (Fin a') (fl x)" using fl_mono [OF assms(1)] assms(3) by simp
  moreover have "jle (fl x) (Fin b')" using fl_mono [OF assms(2)] assms(4) by simp
  ultimately show ?thesis by (cases "fl x") simp_all
qed


section \<open>Properties of the cost preview\<close>

lemma jsub_Fin: "jsub (Fin x) (Fin y) = fl (x - y)"
  by (simp add: jsub_def)

lemmas parse_defs =
  parseFloat_string_def unsigned_literal_def digit_of_def digits_value_def exponent_part_def
  scale10_def is_space_def

lemmas cost_defs =
  previewCost_def distCost_def tier1_def tier2_def tier3_def surcharge_def falsy_def jsub_Fin

lemma distCost_Fin: "distCost (Fin d) = spec_distCost d"
  by (simp add: distCost_def tier1_def tier2_def tier3_def spec_distCost_def)

lemma surcharge_Fin: "surcharge (Fin w) = spec_surcharge w"
  by (simp add: surcharge_def spec_surcharge_def)

lemma previewCost_Fin:
  assumes "d \<noteq> 0" and "w \<noteq> 0"
  shows "previewCost (JNum (Fin d)) (JNum (Fin w)) = JNum (spec_estimateCost d w)"
  using assms
  by (simp add: previewCost_def falsy_def distCost_Fin surcharge_Fin spec_estimateCost_def)

text \<open>
  C1. For every positive distance \<open>d\<close> and positive weight \<open>w\<close>, \<open>previewCost\<close> returns the
  number \<open>round (200 + distCost + surcharge)\<close>, with the distance cost and the surcharge
  as the specification words them, in binary64 arithmetic; and \<open>previewCost(10, 20)\<close> is
  700 and \<open>previewCost(60, 30)\<close> is 2620.
\<close>

theorem previewCost_positive:
  "(0 < d \<longrightarrow> 0 < w \<longrightarrow>
      previewCost (JNum (Fin d)) (JNum (Fin w))
        = JNum (Math_round (jadd (jadd (Fin 200) (spec_distCost d)) (spec_surcharge w))))
   \<and> previewCost (JNum (Fin 10)) (JNum (Fin 20)) = JNum (Fin 700)
   \<and> previewCost (JNum (Fin 60)) (JNum (Fin 30)) = JNum (Fin 2620)"
proof (intro conjI impI)
  assume "0 < d" and "0 < w"
  then show "previewCost (JNum (Fin d)) (JNum (Fin w))
      = JNum (Math_round (jadd (jadd (Fin 200) (spec_distCost d)) (spec_surcharge w)))"
    using previewCost_Fin [of d w] by (simp add: spec_estimateCost_def)
next
  show "previewCost (JNum (Fin 10)) (JNum (Fin 20)) = JNum (Fin 700)"
    by (simp add: cost_defs)
next
  show "previewCost (JNum (Fin 60)) (JNum (Fin 30)) = JNum (Fin 2620)"
    by (simp add: cost_defs)
qed

theorem previewCost_positive_witness:
  "(0 :: real) < 25 \<and> (0 :: real) < 35
   \<and> previewCost (JNum (Fin 25)) (JNum (Fin 35)) = JNum (Fin 1330)"
  using previewCost_positive [of 25 35]
  by (simp add: spec_distCost_def spec_surcharge_def jsub_Fin)

text \<open>
  Rounding is part of the result. The binary64 value of \<open>0.03\<close> times 50 rounds up to
  \<open>1.5\<close>, so \<open>previewCost(0.03, 5)\<close> is 202 where exact arithmetic would give 201; and
  \<open>previewCost("512.05", "5")\<close> is 16161 where exact arithmetic would give 16162.
\<close>

lemma fl_003_times_50: "fl (1080863910568919 / 36028797018963968 * 50) = Fin (3 / 2)"
  using fl_eval [of 0 "1080863910568919 / 36028797018963968 * 50"]
  by (simp add: rne_def)

lemma previewCost_rounds_up:
  "previewCost (JNum (Fin (1080863910568919 / 36028797018963968))) (JNum (Fin 5))
     = JNum (Fin 202)"
  using fl_003_times_50 by (simp add: cost_defs)


lemma previewCost_rounds_down:
  "previewCost (JStr ''512.05'') (JStr ''5'') = JNum (Fin 16161)"
proof -
  have p: "parseFloat (JStr ''512.05'') = Fin (2252019716010803 / 4398046511104)"
    using fl_eval [of 9 "51205 / 100"]
    by (simp add: parse_defs rne_def)
  have w: "parseFloat (JStr ''5'') = Fin 5"
    by (simp add: parse_defs)
  have s1: "jsub (Fin (2252019716010803 / 4398046511104)) (Fin 50)
      = Fin (2032117390455603 / 4398046511104)"
    using fl_eval [of 8 "2252019716010803 / 4398046511104 - 50"]
    by (simp add: jsub_Fin rne_def)
  have s2: "jmul (Fin (2032117390455603 / 4398046511104)) (Fin 30)
      = Fin (7620440214208511 / 549755813888)"
    using fl_eval [of 13 "2032117390455603 / 4398046511104 * 30"]
    by (simp add: rne_def)
  have s3: "jadd (Fin 2100) (Fin (7620440214208511 / 549755813888))
      = Fin (8774927423373311 / 549755813888)"
    using fl_eval [of 13 "2100 + 7620440214208511 / 549755813888"]
    by (simp add: rne_def)
  have s4: "jadd (Fin 200) (Fin (8774927423373311 / 549755813888))
      = Fin (8884878586150911 / 549755813888)"
    using fl_eval [of 13 "200 + 8774927423373311 / 549755813888"]
    by (simp add: rne_def)
  have s5: "jadd (Fin (8884878586150911 / 549755813888)) (Fin 0)
      = Fin (8884878586150911 / 549755813888)"
    using fl_eval [of 13 "8884878586150911 / 549755813888"]
    by (simp add: rne_def)
  have t: "tier3 (Fin (2252019716010803 / 4398046511104))
      = Fin (8774927423373311 / 549755813888)"
    unfolding tier3_def s1 s2 using s3 by simp
  have dc: "distCost (Fin (2252019716010803 / 4398046511104))
      = Fin (8774927423373311 / 549755813888)"
    unfolding distCost_def t by simp
  have sc: "surcharge (Fin 5) = Fin 0"
    by (simp add: surcharge_def)
  show ?thesis
    unfolding previewCost_def Let_def p w dc sc s4 s5 by (simp add: falsy_def)
qed


text \<open>
  C4, as amended. \<open>previewCost\<close> is a total function (it has no failing path) and returns
  \<open>null\<close> whenever either argument is falsy, that is \<open>null\<close>, \<open>undefined\<close>, the empty
  string, \<open>0\<close> or \<open>NaN\<close>; so \<open>previewCost(null, x)\<close> and \<open>previewCost(x, 0)\<close> are \<open>null\<close>
  for every \<open>x\<close>.
\<close>

theorem previewCost_absent_when_falsy:
  "(falsy a \<or> falsy b \<longrightarrow> previewCost a b = Null)
   \<and> previewCost Null x = Null
   \<and> previewCost Undefined x = Null
   \<and> previewCost x Null = Null
   \<and> previewCost x (JNum (Fin 0)) = Null
   \<and> previewCost x (JStr []) = Null"
  by (simp add: previewCost_def falsy_def)

theorem previewCost_absent_when_falsy_witness:
  "falsy (JNum NaN) \<and> previewCost (JNum NaN) (JStr ''5.5'') = Null"
  using previewCost_absent_when_falsy [of "JNum NaN" "JStr ''5.5''"]
  by (simp add: falsy_def)

text \<open>
  A negative distance is not rejected: \<open>previewCost(-5, 10)\<close> is the number \<open>-50\<close>. Nor is
  a non-empty string that reads as zero: \<open>previewCost("0.00", "5")\<close> is 200.
\<close>

theorem previewCost_negative_counterexample:
  "previewCost (JNum (Fin (- 5))) (JNum (Fin 10)) = JNum (Fin (- 50))
   \<and> previewCost (JStr ''0.00'') (JStr ''5'') = JNum (Fin 200)"
  by (simp add: cost_defs parse_defs)

text \<open>The operations of the pricing rule keep the order of their arguments.\<close>

lemma jle_PInf: "a \<noteq> NaN \<Longrightarrow> jle a PInf"
  by (cases a) simp_all

lemma jle_NInf: "a \<noteq> NaN \<Longrightarrow> jle NInf a"
  by (cases a) simp_all

lemma jmul_mono:
  assumes "jle a b" "0 < c"
  shows "jle (jmul a (Fin c)) (jmul b (Fin c))"
proof (cases a; cases b)
  fix x y assume "a = Fin x" "b = Fin y"
  then show ?thesis using assms fl_mono [of "x * c" "y * c"] by simp
qed (use assms in \<open>simp_all add: signed_inf_def jle_PInf jle_NInf fl_not_NaN\<close>)

lemma jdiv_mono:
  assumes "jle a b" "0 < c"
  shows "jle (jdiv a (Fin c)) (jdiv b (Fin c))"
proof (cases a; cases b)
  fix x y assume "a = Fin x" "b = Fin y"
  then show ?thesis using assms fl_mono [of "x / c" "y / c"] by (simp add: divide_right_mono)
qed (use assms in \<open>simp_all add: signed_inf_def jle_PInf jle_NInf fl_not_NaN\<close>)

lemma jadd_mono_right:
  assumes "jle a b"
  shows "jle (jadd (Fin c) a) (jadd (Fin c) b)"
proof (cases a; cases b)
  fix x y assume "a = Fin x" "b = Fin y"
  then show ?thesis using assms fl_mono [of "c + x" "c + y"] by simp
qed (use assms in \<open>simp_all add: jle_PInf jle_NInf fl_not_NaN\<close>)

lemma jadd_mono_left:
  assumes "jle a b"
  shows "jle (jadd a (Fin c)) (jadd b (Fin c))"
proof (cases a; cases b)
  fix x y assume "a = Fin x" "b = Fin y"
  then show ?thesis using assms fl_mono [of "x + c" "y + c"] by simp
qed (use assms in \<open>simp_all add: jle_PInf jle_NInf fl_not_NaN\<close>)

lemma jsub_mono:
  assumes "jle a b"
  shows "jle (jsub a (Fin c)) (jsub b (Fin c))"
  using jadd_mono_left [OF assms, of "- c"] by (simp add: jsub_def)

text \<open>A sum of two numbers that are not negative keeps the order in each of them.\<close>

lemma jadd_mono:
  assumes "jle a b" "jle a' b'" "jle (Fin 0) a" "jle (Fin 0) a'"
  shows "jle (jadd a a') (jadd b b')"
proof -
  have nb: "jle (Fin 0) b" using assms(1,3) jle_trans by blast
  have nb': "jle (Fin 0) b'" using assms(2,4) jle_trans by blast
  show ?thesis
  proof (cases a; cases a'; cases b; cases b')
    fix x x' y y' assume "a = Fin x" "a' = Fin x'" "b = Fin y" "b' = Fin y'"
    then show ?thesis using assms fl_mono [of "x + x'" "y + y'"] by simp
  qed (use assms nb nb' in \<open>simp_all add: jle_PInf jle_NInf fl_not_NaN\<close>)
qed

lemma Math_round_mono:
  assumes "jle a b"
  shows "jle (Math_round a) (Math_round b)"
proof (cases a; cases b)
  fix x y assume "a = Fin x" "b = Fin y"
  then show ?thesis using assms floor_mono [of "x + 1 / 2" "y + 1 / 2"] by simp
qed (use assms in simp_all)

lemma tier1_mono: "d1 \<le> d2 \<Longrightarrow> jle (tier1 (Fin d1)) (tier1 (Fin d2))"
  unfolding tier1_def by (intro jmul_mono) simp_all

lemma tier2_mono: "d1 \<le> d2 \<Longrightarrow> jle (tier2 (Fin d1)) (tier2 (Fin d2))"
  unfolding tier2_def by (intro jadd_mono_right jmul_mono jsub_mono) simp_all

lemma tier3_mono: "d1 \<le> d2 \<Longrightarrow> jle (tier3 (Fin d1)) (tier3 (Fin d2))"
proof -
  assume "d1 \<le> d2"
  then have "jle (jadd (Fin 2100) (jmul (jsub (Fin d1) (Fin 50)) (Fin 30)))
      (jadd (Fin 2100) (jmul (jsub (Fin d2) (Fin 50)) (Fin 30)))"
    by (intro jadd_mono_right jmul_mono jsub_mono) simp_all
  then show ?thesis by (simp add: tier3_def)
qed

lemma tiers_meet:
  "tier1 (Fin 10) = Fin 500" "tier2 (Fin 10) = Fin 500"
  "tier2 (Fin 50) = Fin 2100" "tier3 (Fin 50) = Fin 2100"
  by (simp_all add: tier1_def tier2_def tier3_def jsub_Fin)

lemma distCost_mono:
  assumes "d1 \<le> d2"
  shows "jle (distCost (Fin d1)) (distCost (Fin d2))"
proof -
  consider "d2 \<le> 10" | "d1 \<le> 10" "10 < d2" "d2 \<le> 50" | "d1 \<le> 10" "50 < d2"
    | "10 < d1" "d2 \<le> 50" | "10 < d1" "d1 \<le> 50" "50 < d2" | "50 < d1"
    by linarith
  then show ?thesis
  proof cases
    case 1
    then show ?thesis using assms tier1_mono [of d1 d2] by (simp add: distCost_def)
  next
    case 2
    have a: "jle (tier1 (Fin d1)) (Fin 500)"
      using tier1_mono [of d1 10] 2 by (simp add: tiers_meet)
    have b: "jle (Fin 500) (tier2 (Fin d2))"
      using tier2_mono [of 10 d2] 2 by (simp add: tiers_meet)
    show ?thesis using jle_trans [OF a b] 2 by (simp add: distCost_def)
  next
    case 3
    have a: "jle (tier1 (Fin d1)) (Fin 500)"
      using tier1_mono [of d1 10] 3 by (simp add: tiers_meet)
    have b: "jle (Fin 2100) (tier3 (Fin d2))"
      using tier3_mono [of 50 d2] 3 by (simp add: tiers_meet)
    have c: "jle (Fin 500) (Fin 2100)" by simp
    show ?thesis using jle_trans [OF a jle_trans [OF c b]] 3 by (simp add: distCost_def)
  next
    case 4
    then show ?thesis using assms tier2_mono [of d1 d2] by (simp add: distCost_def)
  next
    case 5
    have a: "jle (tier2 (Fin d1)) (Fin 2100)"
      using tier2_mono [of d1 50] 5 by (simp add: tiers_meet)
    have b: "jle (Fin 2100) (tier3 (Fin d2))"
      using tier3_mono [of 50 d2] 5 by (simp add: tiers_meet)
    show ?thesis using jle_trans [OF a b] 5 by (simp add: distCost_def)
  next
    case 6
    then show ?thesis using assms tier3_mono [of d1 d2] by (simp add: distCost_def)
  qed
qed

lemma distCost_nonneg: "0 \<le> d \<Longrightarrow> jle (Fin 0) (distCost (Fin d))"
  using distCost_mono [of 0 d] by (simp add: distCost_def tier1_def)

lemma surcharge_mono:
  assumes "w1 \<le> w2"
  shows "jle (surcharge (Fin w1)) (surcharge (Fin w2))"
proof -
  have m: "jle (jmul (jdiv (jsub (Fin u) (Fin 20)) (Fin 10)) (Fin 20))
      (jmul (jdiv (jsub (Fin v) (Fin 20)) (Fin 10)) (Fin 20))" if "u \<le> v" for u v :: real
    using that by (intro jmul_mono jdiv_mono jsub_mono; simp)
  have z: "jmul (jdiv (jsub (Fin 20) (Fin 20)) (Fin 10)) (Fin 20) = Fin 0"
    by (simp add: jsub_Fin)
  consider "w2 \<le> 20" | "w1 \<le> 20" "20 < w2" | "20 < w1" by linarith
  then show ?thesis
  proof cases
    case 1
    then show ?thesis using assms by (simp add: surcharge_def)
  next
    case 2
    then show ?thesis using m [of 20 w2] by (simp add: surcharge_def z)
  next
    case 3
    then show ?thesis using assms m [of w1 w2] by (simp add: surcharge_def)
  qed
qed

lemma surcharge_nonneg: "jle (Fin 0) (surcharge (Fin w))"
proof (cases "0 \<le> w")
  case True
  then show ?thesis using surcharge_mono [of 0 w] by (simp add: surcharge_def)
next
  case False
  then show ?thesis by (simp add: surcharge_def)
qed

lemma total_mono:
  assumes "0 \<le> d1" "d1 \<le> d2" "w1 \<le> w2"
  shows "jle (Math_round (jadd (jadd (Fin 200) (distCost (Fin d1))) (surcharge (Fin w1))))
             (Math_round (jadd (jadd (Fin 200) (distCost (Fin d2))) (surcharge (Fin w2))))"
proof -
  have a: "jle (jadd (Fin 200) (distCost (Fin d1))) (jadd (Fin 200) (distCost (Fin d2)))"
    using assms(2) by (intro jadd_mono_right distCost_mono)
  have "jle (jadd (Fin 200) (Fin 0)) (jadd (Fin 200) (distCost (Fin d1)))"
    using assms(1) by (intro jadd_mono_right distCost_nonneg)
  then have n: "jle (Fin 0) (jadd (Fin 200) (distCost (Fin d1)))"
    using jle_trans [of "Fin 0" "Fin 200"] by simp
  have "jle (jadd (jadd (Fin 200) (distCost (Fin d1))) (surcharge (Fin w1)))
            (jadd (jadd (Fin 200) (distCost (Fin d2))) (surcharge (Fin w2)))"
    using a surcharge_mono [OF assms(3)] n surcharge_nonneg [of w1] by (rule jadd_mono)
  then show ?thesis by (rule Math_round_mono)
qed

lemma total_finite:
  assumes "0 \<le> d" "d \<le> 1000000" "0 \<le> w" "w \<le> 1000000"
  shows "\<exists>c. Math_round (jadd (jadd (Fin 200) (distCost (Fin d))) (surcharge (Fin w))) = Fin c
           \<and> 200 \<le> c \<and> c \<le> 32000760"
proof -
  define t where "t = Math_round (jadd (jadd (Fin 200) (distCost (Fin d))) (surcharge (Fin w)))"
  have lo: "Math_round (jadd (jadd (Fin 200) (distCost (Fin 0))) (surcharge (Fin 0))) = Fin 200"
    by (simp add: distCost_def tier1_def surcharge_def)
  have hi: "Math_round (jadd (jadd (Fin 200) (distCost (Fin 1000000))) (surcharge (Fin 1000000)))
      = Fin 32000760"
    by (simp add: distCost_def tier3_def surcharge_def jsub_Fin)
  have "jle (Fin 200) t"
    using total_mono [of 0 d 0 w] assms unfolding t_def lo by simp
  moreover have "jle t (Fin 32000760)"
    using total_mono [of d 1000000 w 1000000] assms unfolding t_def hi by simp
  ultimately have "\<exists>c. t = Fin c \<and> 200 \<le> c \<and> c \<le> 32000760"
    by (cases t) simp_all
  then show ?thesis by (simp add: t_def)
qed

text \<open>
  C9. Over positive arguments \<open>previewCost\<close> is monotone in the distance and in the
  weight: the results are numbers in the order \<open><=\<close> of JavaScript, and finite numbers
  for distances and weights up to a million. Neighbouring distance tiers agree at 10 km
  and at 50 km.
\<close>

theorem previewCost_monotone:
  "(0 < d1 \<longrightarrow> d1 \<le> d2 \<longrightarrow> 0 < w \<longrightarrow>
      (\<exists>c1 c2. previewCost (JNum (Fin d1)) (JNum (Fin w)) = JNum c1
             \<and> previewCost (JNum (Fin d2)) (JNum (Fin w)) = JNum c2
             \<and> jle c1 c2))
   \<and> (0 < w1 \<longrightarrow> w1 \<le> w2 \<longrightarrow> 0 < d \<longrightarrow>
      (\<exists>c1 c2. previewCost (JNum (Fin d)) (JNum (Fin w1)) = JNum c1
             \<and> previewCost (JNum (Fin d)) (JNum (Fin w2)) = JNum c2
             \<and> jle c1 c2))
   \<and> (0 < d \<longrightarrow> d \<le> 1000000 \<longrightarrow> 0 < w \<longrightarrow> w \<le> 1000000 \<longrightarrow>
      (\<exists>c. previewCost (JNum (Fin d)) (JNum (Fin w)) = JNum (Fin c) \<and> 200 \<le> c))
   \<and> tier1 (Fin 10) = tier2 (Fin 10)
   \<and> tier2 (Fin 50) = tier3 (Fin 50)"
proof (intro conjI impI)
  assume h: "0 < d1" "d1 \<le> d2" "0 < w"
  have "jle (Math_round (jadd (jadd (Fin 200) (distCost (Fin d1))) (surcharge (Fin w))))
            (Math_round (jadd (jadd (Fin 200) (distCost (Fin d2))) (surcharge (Fin w))))"
    using h by (intro total_mono) simp_all
  then show "\<exists>c1 c2. previewCost (JNum (Fin d1)) (JNum (Fin w)) = JNum c1
           \<and> previewCost (JNum (Fin d2)) (JNum (Fin w)) = JNum c2 \<and> jle c1 c2"
    using h by (simp add: previewCost_def falsy_def)
next
  assume h: "0 < w1" "w1 \<le> w2" "0 < d"
  have "jle (Math_round (jadd (jadd (Fin 200) (distCost (Fin d))) (surcharge (Fin w1))))
            (Math_round (jadd (jadd (Fin 200) (distCost (Fin d))) (surcharge (Fin w2))))"
    using h by (intro total_mono) simp_all
  then show "\<exists>c1 c2. previewCost (JNum (Fin d)) (JNum (Fin w1)) = JNum c1
           \<and> previewCost (JNum (Fin d)) (JNum (Fin w2)) = JNum c2 \<and> jle c1 c2"
    using h by (simp add: previewCost_def falsy_def)
next
  assume h: "0 < d" "d \<le> 1000000" "0 < w" "w \<le> 1000000"
  then have "\<exists>c. Math_round (jadd (jadd (Fin 200) (distCost (Fin d))) (surcharge (Fin w))) = Fin c
      \<and> 200 \<le> c \<and> c \<le> 32000760"
    by (intro total_finite) simp_all
  then show "\<exists>c. previewCost (JNum (Fin d)) (JNum (Fin w)) = JNum (Fin c) \<and> 200 \<le> c"
    using h by (auto simp: previewCost_def falsy_def)
next
  show "tier1 (Fin 10) = tier2 (Fin 10)" by (simp add: tiers_meet)
next
  show "tier2 (Fin 50) = tier3 (Fin 50)" by (simp add: tiers_meet)
qed

theorem previewCost_monotone_witness:
  "(0 :: real) < 10 \<and> (10 :: real) \<le> 21 / 2 \<and> (0 :: real) < 5
   \<and> previewCost (JNum (Fin 10)) (JNum (Fin 5)) = JNum (Fin 700)
   \<and> previewCost (JNum (Fin (21 / 2))) (JNum (Fin 5)) = JNum (Fin 720)
   \<and> (\<exists>c1 c2. previewCost (JNum (Fin 10)) (JNum (Fin 5)) = JNum c1
            \<and> previewCost (JNum (Fin (21 / 2))) (JNum (Fin 5)) = JNum c2
            \<and> jle c1 c2)
   \<and> (0 :: real) < 20 \<and> (20 :: real) \<le> 30
   \<and> previewCost (JNum (Fin 10)) (JNum (Fin 20)) = JNum (Fin 700)
   \<and> previewCost (JNum (Fin 10)) (JNum (Fin 30)) = JNum (Fin 720)
   \<and> (\<exists>c1 c2. previewCost (JNum (Fin 10)) (JNum (Fin 20)) = JNum c1
            \<and> previewCost (JNum (Fin 10)) (JNum (Fin 30)) = JNum c2
            \<and> jle c1 c2)"
proof -
  have a: "previewCost (JNum (Fin 10)) (JNum (Fin 5)) = JNum (Fin 700)"
    by (simp add: cost_defs)
  have b: "previewCost (JNum (Fin (21 / 2))) (JNum (Fin 5)) = JNum (Fin 720)"
    by (simp add: cost_defs)
  have c: "previewCost (JNum (Fin 10)) (JNum (Fin 20)) = JNum (Fin 700)"
    by (simp add: cost_defs)
  have d: "previewCost (JNum (Fin 10)) (JNum (Fin 30)) = JNum (Fin 720)"
    by (simp add: cost_defs)
  have m1: "\<exists>c1 c2. previewCost (JNum (Fin 10)) (JNum (Fin 5)) = JNum c1
      \<and> previewCost (JNum (Fin (21 / 2))) (JNum (Fin 5)) = JNum c2 \<and> jle c1 c2"
    using previewCost_monotone [of 10 "21 / 2" 5] by simp
  have m2: "\<exists>c1 c2. previewCost (JNum (Fin 10)) (JNum (Fin 20)) = JNum c1
      \<and> previewCost (JNum (Fin 10)) (JNum (Fin 30)) = JNum c2 \<and> jle c1 c2"
    using previewCost_monotone [of _ _ _ 20 30 10] by simp
  show ?thesis using a b c d m1 m2 by simp
qed


section \<open>Properties of the distance\<close>

lemma jadd_NaN_right: "jadd a NaN = NaN"
  by (cases a) simp_all

lemma jmul_NaN_right: "jmul a NaN = NaN"
  by (cases a) simp_all

lemma fl_bounded:
  assumes "\<bar>x\<bar> \<le> of_int B" "\<bar>B\<bar> < 2 ^ 53"
  shows "\<exists>y. fl x = Fin y \<and> \<bar>y\<bar> \<le> of_int B"
proof -
  have lo: "fl (of_int (- B)) = Fin (of_int (- B))" using assms(2) by (intro fl_of_int) simp
  have hi: "fl (of_int B) = Fin (of_int B)" using assms(2) by (rule fl_of_int)
  have "\<exists>y. fl x = Fin y \<and> of_int (- B) \<le> y \<and> y \<le> of_int B"
    using assms(1) lo hi by (intro fl_between) auto
  then show ?thesis by auto
qed

text \<open>The distance from a point to itself is zero.\<close>

lemma haversine_same:
  assumes "\<bar>la\<bar> \<le> 1000000"
  shows "haversine (Fin la) (Fin lo) (Fin la) (Fin lo) = Fin 0"
proof -
  have d0: "jsub (Fin x) (Fin x) = Fin 0" for x
    by (simp add: jsub_Fin)
  have z: "jdiv (jdiv (jmul (Fin 0) Math_PI) (Fin 180)) (Fin 2) = Fin 0"
    by (simp add: Math_PI_def)
  have s0: "jsquare (Math_sin (Fin 0)) = Fin 0"
    by simp
  have "\<bar>la * (884279719003555 / 281474976710656)\<bar> \<le> of_int 4000000"
    using assms by (simp add: abs_mult)
  then have "\<exists>y. fl (la * (884279719003555 / 281474976710656)) = Fin y \<and> \<bar>y\<bar> \<le> of_int 4000000"
    by (intro fl_bounded) simp_all
  then obtain u where u: "jmul (Fin la) Math_PI = Fin u" and ub: "\<bar>u\<bar> \<le> 4000000"
    unfolding Math_PI_def by auto
  have "\<bar>u / 180\<bar> \<le> of_int 4000000" using ub by simp
  then have "\<exists>y. fl (u / 180) = Fin y \<and> \<bar>y\<bar> \<le> of_int 4000000"
    by (intro fl_bounded) simp_all
  then obtain v where v: "jdiv (Fin u) (Fin 180) = Fin v" by auto
  have "\<bar>cos v\<bar> \<le> of_int 1" by simp
  then have "\<exists>y. fl (cos v) = Fin y \<and> \<bar>y\<bar> \<le> of_int 1"
    by (intro fl_bounded) simp_all
  then obtain c where c: "Math_cos (Fin v) = Fin c" and cb: "\<bar>c\<bar> \<le> 1" by auto
  have "\<bar>c\<bar> * \<bar>c\<bar> \<le> 1" using cb by (intro mult_le_one) simp_all
  then have "\<bar>c * c\<bar> \<le> of_int 1" by (simp add: abs_mult)
  then have "\<exists>y. fl (c * c) = Fin y \<and> \<bar>y\<bar> \<le> of_int 1"
    by (intro fl_bounded) simp_all
  then obtain p where p: "jmul (Fin c) (Fin c) = Fin p" by auto
  show ?thesis
    unfolding haversine_def Let_def d0 z s0 u v c p by (simp add: jsub_Fin atan2_real_def)
qed

text \<open>A finite distance is far from the range where \<open>toFixed\<close> changes notation.\<close>

lemma atan2_real_bound: "\<bar>atan2_real y x\<bar> \<le> 4"
proof -
  have a: "- (pi / 2) < arctan (y / x)" "arctan (y / x) < pi / 2"
    using arctan_lbound [of "y / x"] arctan_ubound [of "y / x"] by simp_all
  have p: "0 < pi" "pi < 4" using pi_gt_zero pi_less_4 by simp_all
  consider "0 < x" | "x < 0" "0 \<le> y" | "x < 0" "y < 0" | "x = 0" by linarith
  then show ?thesis
  proof cases
    case 1
    then have "atan2_real y x = arctan (y / x)" by (simp add: atan2_real_def)
    then show ?thesis using a p by linarith
  next
    case 2
    then have "y / x \<le> 0" by (simp add: divide_nonneg_neg)
    then have n: "arctan (y / x) \<le> 0" by (simp only: arctan_le_zero_iff)
    have "atan2_real y x = arctan (y / x) + pi" using 2 by (simp add: atan2_real_def)
    then show ?thesis using a p n by linarith
  next
    case 3
    then have "0 < y / x" by (simp add: divide_neg_neg)
    then have n: "0 < arctan (y / x)" by (simp only: zero_less_arctan_iff)
    have "atan2_real y x = arctan (y / x) - pi" using 3 by (simp add: atan2_real_def)
    then show ?thesis using a p n by linarith
  next
    case 4
    then have "atan2_real y x = (if 0 < y then pi / 2 else if y < 0 then - (pi / 2) else 0)"
      by (simp add: atan2_real_def)
    then have "\<bar>atan2_real y x\<bar> \<le> pi / 2"
      by (simp split: if_splits)
    then show ?thesis using p by linarith
  qed
qed

lemma Math_atan2_range:
  "Math_atan2 y x = NaN \<or> (\<exists>t. Math_atan2 y x = Fin t \<and> \<bar>t\<bar> \<le> 4)"
proof -
  have p: "0 < pi" "pi < 4" using pi_gt_zero pi_less_4 by simp_all
  have b: "\<exists>t. fl z = Fin t \<and> \<bar>t\<bar> \<le> 4" if "\<bar>z\<bar> \<le> 4" for z
    using fl_bounded [of z 4] that by simp
  show ?thesis
  proof (cases y; cases x)
    fix v u assume "y = Fin v" "x = Fin u"
    then show ?thesis using b [OF atan2_real_bound [of v u]] by simp
  qed (use p b in simp_all)
qed

lemma haversine_bounded:
  assumes "haversine lat1 lon1 lat2 lon2 = Fin r"
  shows "\<bar>r\<bar> \<le> 50968"
proof -
  define a where "a = jadd (jsquare (Math_sin (jdiv (jdiv (jmul (jsub lat2 lat1) Math_PI) (Fin 180)) (Fin 2))))
                (jmul
                   (jmul (Math_cos (jdiv (jmul lat1 Math_PI) (Fin 180)))
                         (Math_cos (jdiv (jmul lat2 Math_PI) (Fin 180))))
                   (jsquare (Math_sin (jdiv (jdiv (jmul (jsub lon2 lon1) Math_PI) (Fin 180)) (Fin 2)))))"
  define T where "T = Math_atan2 (Math_sqrt a) (Math_sqrt (jsub (Fin 1) a))"
  have h: "haversine lat1 lon1 lat2 lon2 = jmul (Fin 12742) T"
    by (simp add: haversine_def Let_def a_def T_def)
  consider "T = NaN" | t where "T = Fin t" "\<bar>t\<bar> \<le> 4"
    using Math_atan2_range [of "Math_sqrt a" "Math_sqrt (jsub (Fin 1) a)"] unfolding T_def by auto
  then show ?thesis
  proof cases
    case 1
    then show ?thesis using assms h by simp
  next
    case 2
    have "\<bar>12742 * t\<bar> \<le> of_int 50968" using 2(2) by (simp add: abs_mult)
    then have "\<exists>y. fl (12742 * t) = Fin y \<and> \<bar>y\<bar> \<le> of_int 50968"
      by (intro fl_bounded) simp_all
    then show ?thesis using assms h 2(1) by auto
  qed
qed

text \<open>
  Swapping the two points gives the same computed value, a number or \<open>NaN\<close>: the
  differences change sign only, and the sine is squared.
\<close>

lemma jsub_swap: "jsub (Fin a) (Fin b) = jneg (jsub (Fin b) (Fin a))"
proof -
  have "a - b = - (b - a)" by simp
  then show ?thesis unfolding jsub_Fin by (simp only: fl_minus)
qed

lemma jmul_jneg: "jmul (jneg u) (Fin c) = jneg (jmul u (Fin c))"
  by (cases u) (simp_all add: signed_inf_def fl_minus [symmetric])

lemma jdiv_jneg: "0 < c \<Longrightarrow> jdiv (jneg u) (Fin c) = jneg (jdiv u (Fin c))"
  by (cases u) (simp_all add: signed_inf_def fl_minus [symmetric])

lemma Math_sin_jneg: "Math_sin (jneg u) = jneg (Math_sin u)"
  by (cases u) (simp_all add: fl_minus [symmetric])

lemma jsquare_jneg: "jsquare (jneg u) = jsquare u"
  by (cases u) simp_all

lemma jmul_commute: "jmul a b = jmul b a"
  by (cases a; cases b) (simp_all add: mult.commute)

lemma half_angle_swap:
  "jsquare (Math_sin (jdiv (jdiv (jmul (jsub (Fin a) (Fin b)) Math_PI) (Fin 180)) (Fin 2)))
   = jsquare (Math_sin (jdiv (jdiv (jmul (jsub (Fin b) (Fin a)) Math_PI) (Fin 180)) (Fin 2)))"
  unfolding jsub_swap [of a b] Math_PI_def
  by (simp only: jmul_jneg jdiv_jneg Math_sin_jneg jsquare_jneg zero_less_numeral)

lemma haversine_order:
  "haversine (Fin lat1) (Fin lon1) (Fin lat2) (Fin lon2)
   = haversine (Fin lat2) (Fin lon2) (Fin lat1) (Fin lon1)"
  unfolding haversine_def Let_def
  by (simp only: half_angle_swap [of lat2 lat1] half_angle_swap [of lon2 lon1]
      jmul_commute [of "Math_cos (jdiv (jmul (Fin lat1) Math_PI) (Fin 180))"])

subsection \<open>A nearly antipodal pair\<close>

text \<open>
  Sine and cosine are enclosed by their Maclaurin polynomials, close enough to tell the
  binary64 value they round to.
\<close>

lemma Maclaurin_cos_bound:
  "\<bar>cos x - (\<Sum>m<n. cos_coeff m * x ^ m)\<bar>
      \<le> inverse (fact n) * \<bar>x\<bar> ^ n"
proof -
  obtain t where t:
    "cos x = (\<Sum>m<n. cos_coeff m * x ^ m) + (cos (t + 1 / 2 * real n * pi) / fact n) * x ^ n"
    using Maclaurin_cos_expansion [of x n] by blast
  define c where "c = cos (t + 1 / 2 * real n * pi)"
  have c: "\<bar>c\<bar> \<le> 1" unfolding c_def by (rule abs_cos_le_one)
  have "cos x - (\<Sum>m<n. cos_coeff m * x ^ m) = c * x ^ n / fact n"
    unfolding c_def by (subst t) simp
  then have "\<bar>cos x - (\<Sum>m<n. cos_coeff m * x ^ m)\<bar>
      = \<bar>c\<bar> * \<bar>x\<bar> ^ n / fact n"
    by (simp add: abs_mult power_abs)
  also have "\<dots> \<le> 1 * \<bar>x\<bar> ^ n / fact n"
    using c by (intro divide_right_mono mult_right_mono) simp_all
  finally show ?thesis by (simp add: inverse_eq_divide)
qed

lemma sin_sum14:
  "(\<Sum>m<14. sin_coeff m * x ^ m) =
     x - x ^ 3 / 6 + x ^ 5 / 120 - x ^ 7 / 5040 + x ^ 9 / 362880 - x ^ 11 / 39916800 +
       x ^ 13 / 6227020800"
  by (simp add: lessThan_nat_numeral sin_coeff_def fact_numeral)

lemma cos_sum14:
  "(\<Sum>m<14. cos_coeff m * x ^ m) =
     1 - x ^ 2 / 2 + x ^ 4 / 24 - x ^ 6 / 720 + x ^ 8 / 40320 - x ^ 10 / 3628800 + x ^
       12 / 479001600"
  by (simp add: lessThan_nat_numeral cos_coeff_def fact_numeral)

lemma sin_sum24:
  "(\<Sum>m<24. sin_coeff m * x ^ m) =
     x - x ^ 3 / 6 + x ^ 5 / 120 - x ^ 7 / 5040 + x ^ 9 / 362880 - x ^ 11 / 39916800 +
       x ^ 13 / 6227020800 - x ^ 15 / 1307674368000 + x ^ 17 / 355687428096000 - x ^ 19
       / 121645100408832000 + x ^ 21 / 51090942171709440000 - x ^ 23 /
       25852016738884976640000"
  by (simp add: lessThan_nat_numeral sin_coeff_def fact_numeral)

lemma enclose:
  fixes s :: real
  assumes "\<bar>s - p\<bar> \<le> e" "e \<le> d" "lo + d \<le> p" "p + d \<le> hi"
  shows "lo \<le> s \<and> s \<le> hi"
  using assms by linarith

lemma fl_squeeze:
  assumes "a \<le> x" "x \<le> b" "fl a = Fin v" "fl b = Fin v"
  shows "fl x = Fin v"
  using fl_between [OF assms] by auto

text \<open>Eight degrees, as the code computes the angle: \<open>8 * Math.PI / 180\<close>.\<close>

lemma sin_8deg:
  "5014239404989977 / 36028797018963968 \<le> sin (5030569068109113 / 36028797018963968 :: real)
   \<and> sin (5030569068109113 / 36028797018963968 :: real)
       \<le> 20056957619959909 / 144115188075855872"
proof (rule enclose)
  show "\<bar>sin (5030569068109113 / 36028797018963968 :: real)
      - (\<Sum>m<14. sin_coeff m * (5030569068109113 / 36028797018963968) ^ m)\<bar>
      \<le> inverse (fact 14) * \<bar>5030569068109113 / 36028797018963968\<bar> ^ 14"
    by (rule Maclaurin_sin_bound)
  show "inverse (fact 14) * \<bar>5030569068109113 / 36028797018963968 :: real\<bar> ^ 14
      \<le> 1 / 2 ^ 62"
    by (simp add: fact_numeral power_divide)
  show "5014239404989977 / 36028797018963968 + 1 / 2 ^ 62
      \<le> (\<Sum>m<14. sin_coeff m * (5030569068109113 / 36028797018963968 :: real) ^ m)"
    unfolding sin_sum14 by (simp add: power_divide)
  show "(\<Sum>m<14. sin_coeff m * (5030569068109113 / 36028797018963968 :: real) ^ m) + 1 / 2 ^ 62
      \<le> 20056957619959909 / 144115188075855872"
    unfolding sin_sum14 by (simp add: power_divide)
qed

lemma cos_8deg:
  "142712668972205977 / 144115188075855872
      \<le> cos (5030569068109113 / 36028797018963968 :: real)
   \<and> cos (5030569068109113 / 36028797018963968 :: real)
       \<le> 4459770905381437 / 4503599627370496"
proof (rule enclose)
  show "\<bar>cos (5030569068109113 / 36028797018963968 :: real)
      - (\<Sum>m<14. cos_coeff m * (5030569068109113 / 36028797018963968) ^ m)\<bar>
      \<le> inverse (fact 14) * \<bar>5030569068109113 / 36028797018963968\<bar> ^ 14"
    by (rule Maclaurin_cos_bound)
  show "inverse (fact 14) * \<bar>5030569068109113 / 36028797018963968 :: real\<bar> ^ 14
      \<le> 1 / 2 ^ 62"
    by (simp add: fact_numeral power_divide)
  show "142712668972205977 / 144115188075855872 + 1 / 2 ^ 62
      \<le> (\<Sum>m<14. cos_coeff m * (5030569068109113 / 36028797018963968 :: real) ^ m)"
    unfolding cos_sum14 by (simp add: power_divide)
  show "(\<Sum>m<14. cos_coeff m * (5030569068109113 / 36028797018963968 :: real) ^ m) + 1 / 2 ^ 62
      \<le> 4459770905381437 / 4503599627370496"
    unfolding cos_sum14 by (simp add: power_divide)
qed

text \<open>A quarter turn, as the code computes it: \<open>180 * Math.PI / 180 / 2\<close>.\<close>

lemma sin_quarter_turn: "1 - 1 / 2 ^ 55 \<le> sin (884279719003555 / 562949953421312 :: real)"
proof -
  have b: "\<bar>sin (884279719003555 / 562949953421312 :: real)
      - (\<Sum>m<24. sin_coeff m * (884279719003555 / 562949953421312) ^ m)\<bar>
      \<le> inverse (fact 24) * \<bar>884279719003555 / 562949953421312\<bar> ^ 24"
    by (rule Maclaurin_sin_bound)
  have e: "inverse (fact 24) * \<bar>884279719003555 / 562949953421312 :: real\<bar> ^ 24
      \<le> 1 / 2 ^ 60"
    by (simp add: fact_numeral power_divide)
  have l: "1 - 1 / 2 ^ 55 + 1 / 2 ^ 60
      \<le> (\<Sum>m<24. sin_coeff m * (884279719003555 / 562949953421312 :: real) ^ m)"
    unfolding sin_sum24 by (simp add: power_divide)
  show ?thesis using b e l by linarith
qed

lemma Math_sin_8deg: "Math_sin (Fin (5030569068109113 / 36028797018963968))
    = Fin (5014239404989977 / 36028797018963968)"
proof -
  have "fl (sin (5030569068109113 / 36028797018963968))
      = Fin (5014239404989977 / 36028797018963968)"
  proof (rule fl_squeeze)
    show "5014239404989977 / 36028797018963968
        \<le> sin (5030569068109113 / 36028797018963968 :: real)"
      by (rule conjunct1 [OF sin_8deg])
    show "sin (5030569068109113 / 36028797018963968 :: real)
        \<le> 20056957619959909 / 144115188075855872"
      by (rule conjunct2 [OF sin_8deg])
    show "fl (5014239404989977 / 36028797018963968) = Fin (5014239404989977 / 36028797018963968)"
      using fl_eval [of "- 3" "5014239404989977 / 36028797018963968"] by (simp add: rne_def)
    show "fl (20056957619959909 / 144115188075855872)
        = Fin (5014239404989977 / 36028797018963968)"
      using fl_eval [of "- 3" "20056957619959909 / 144115188075855872"] by (simp add: rne_def)
  qed
  then show ?thesis by simp
qed

lemma Math_cos_8deg: "Math_cos (Fin (5030569068109113 / 36028797018963968))
    = Fin (4459770905381437 / 4503599627370496)"
proof -
  have "fl (cos (5030569068109113 / 36028797018963968))
      = Fin (4459770905381437 / 4503599627370496)"
  proof (rule fl_squeeze)
    show "142712668972205977 / 144115188075855872
        \<le> cos (5030569068109113 / 36028797018963968 :: real)"
      by (rule conjunct1 [OF cos_8deg])
    show "cos (5030569068109113 / 36028797018963968 :: real)
        \<le> 4459770905381437 / 4503599627370496"
      by (rule conjunct2 [OF cos_8deg])
    show "fl (142712668972205977 / 144115188075855872)
        = Fin (4459770905381437 / 4503599627370496)"
      using fl_eval [of "- 1" "142712668972205977 / 144115188075855872"] by (simp add: rne_def)
    show "fl (4459770905381437 / 4503599627370496) = Fin (4459770905381437 / 4503599627370496)"
      using fl_eval [of "- 1" "4459770905381437 / 4503599627370496"] by (simp add: rne_def)
  qed
  then show ?thesis by simp
qed

lemma Math_sin_quarter_turn: "Math_sin (Fin (884279719003555 / 562949953421312)) = Fin 1"
proof -
  have "fl (sin (884279719003555 / 562949953421312)) = Fin 1"
  proof (rule fl_squeeze)
    show "1 - 1 / 2 ^ 55 \<le> sin (884279719003555 / 562949953421312 :: real)"
      by (rule sin_quarter_turn)
    show "sin (884279719003555 / 562949953421312 :: real) \<le> 1"
      by simp
    show "fl (1 - 1 / 2 ^ 55) = Fin 1"
      using fl_eval [of "- 1" "1 - 1 / 2 ^ 55"] by (simp add: rne_def)
    show "fl 1 = Fin 1"
      by simp
  qed
  then show ?thesis by simp
qed

text \<open>The angles of the pair \<open>(8, 0)\<close> and \<open>(-8, 180)\<close>.\<close>

lemma angle_8: "jdiv (jmul (Fin 8) Math_PI) (Fin 180)
    = Fin (5030569068109113 / 36028797018963968)"
proof -
  have m: "jmul (Fin 8) Math_PI = Fin (884279719003555 / 35184372088832)"
    using fl_eval [of 4 "8 * (884279719003555 / 281474976710656)"]
        by (simp add: Math_PI_def rne_def)
  have d: "jdiv (Fin (884279719003555 / 35184372088832)) (Fin 180)
      = Fin (5030569068109113 / 36028797018963968)"
    using fl_eval [of "- 3" "884279719003555 / 35184372088832 / 180"] by (simp add: rne_def)
  show ?thesis unfolding m d ..
qed

lemma angle_16_half:
  "jdiv (jdiv (jmul (Fin 16) Math_PI) (Fin 180)) (Fin 2)
      = Fin (5030569068109113 / 36028797018963968)"
proof -
  have m: "jmul (Fin 16) Math_PI = Fin (884279719003555 / 17592186044416)"
    using fl_eval [of 5 "16 * (884279719003555 / 281474976710656)"]
        by (simp add: Math_PI_def rne_def)
  have d: "jdiv (Fin (884279719003555 / 17592186044416)) (Fin 180)
      = Fin (5030569068109113 / 18014398509481984)"
    using fl_eval [of "- 2" "884279719003555 / 17592186044416 / 180"] by (simp add: rne_def)
  have h: "jdiv (Fin (5030569068109113 / 18014398509481984)) (Fin 2)
      = Fin (5030569068109113 / 36028797018963968)"
    using fl_eval [of "- 3" "5030569068109113 / 18014398509481984 / 2"] by (simp add: rne_def)
  show ?thesis unfolding m d h ..
qed

lemma angle_180_half:
  "jdiv (jdiv (jmul (Fin 180) Math_PI) (Fin 180)) (Fin 2)
      = Fin (884279719003555 / 562949953421312)"
proof -
  have m: "jmul (Fin 180) Math_PI = Fin (4974073419394997 / 8796093022208)"
    using fl_eval [of 9 "180 * (884279719003555 / 281474976710656)"]
        by (simp add: Math_PI_def rne_def)
  have d: "jdiv (Fin (4974073419394997 / 8796093022208)) (Fin 180)
      = Fin (884279719003555 / 281474976710656)"
    using fl_eval [of 1 "4974073419394997 / 8796093022208 / 180"] by (simp add: rne_def)
  have h: "jdiv (Fin (884279719003555 / 281474976710656)) (Fin 2)
      = Fin (884279719003555 / 562949953421312)"
    using fl_eval [of 0 "884279719003555 / 281474976710656 / 2"] by (simp add: rne_def)
  show ?thesis unfolding m d h ..
qed

lemma Math_atan2_NaN: "Math_atan2 y NaN = NaN"
  by (cases y) simp_all

text \<open>
  For this pair the sum \<open>a\<close> is \<open>1 + 2^-52\<close>, the next binary64 value above 1: the
  square root of \<open>1 - a\<close> is \<open>NaN\<close>, and so is the distance.
\<close>

lemma haversine_a_above_1:
  "jadd (jsquare (Math_sin
            (jdiv (jdiv (jmul (jsub (Fin (- 8)) (Fin 8)) Math_PI) (Fin 180)) (Fin 2))))
     (jmul
        (jmul (Math_cos (jdiv (jmul (Fin 8) Math_PI) (Fin 180)))
              (Math_cos (jdiv (jmul (Fin (- 8)) Math_PI) (Fin 180))))
        (jsquare (Math_sin
            (jdiv (jdiv (jmul (jsub (Fin 180) (Fin 0)) Math_PI) (Fin 180)) (Fin 2)))))
   = Fin (4503599627370497 / 4503599627370496)"
proof -
  have s16: "jsub (Fin 8) (Fin (- 8)) = Fin 16"
    by (simp add: jsub_Fin)
  have sq1: "jsquare (Fin (5014239404989977 / 36028797018963968))
      = Fin (1395694493897217 / 72057594037927936)"
    using fl_eval [of "- 6" "5014239404989977 / 36028797018963968 * (5014239404989977 / 36028797018963968)"]
        by (simp add: rne_def)
  have A: "jsquare (Math_sin
            (jdiv (jdiv (jmul (jsub (Fin (- 8)) (Fin 8)) Math_PI) (Fin 180)) (Fin 2)))
      = Fin (1395694493897217 / 72057594037927936)"
    unfolding half_angle_swap [of "- 8" 8] s16 angle_16_half Math_sin_8deg sq1 ..
  have n8: "jdiv (jmul (Fin (- 8)) Math_PI) (Fin 180)
      = Fin (- (5030569068109113 / 36028797018963968))"
  proof -
    have "jdiv (jmul (jneg (Fin 8)) Math_PI) (Fin 180)
        = jneg (jdiv (jmul (Fin 8) Math_PI) (Fin 180))"
      unfolding Math_PI_def by (simp only: jmul_jneg jdiv_jneg zero_less_numeral)
    then show ?thesis unfolding angle_8 by simp
  qed
  have c2: "Math_cos (Fin (- (5030569068109113 / 36028797018963968)))
      = Fin (4459770905381437 / 4503599627370496)"
    using Math_cos_8deg by simp
  have cc: "jmul (Fin (4459770905381437 / 4503599627370496)) (Fin (4459770905381437 / 4503599627370496))
      = Fin (8832737443003841 / 9007199254740992)"
    using fl_eval [of "- 1" "4459770905381437 / 4503599627370496 * (4459770905381437 / 4503599627370496)"]
        by (simp add: rne_def)
  have s180: "jsub (Fin 180) (Fin 0) = Fin 180"
    by (simp add: jsub_Fin)
  have sq2: "jsquare (Fin 1) = Fin 1"
    by simp
  have m1: "jmul (Fin (8832737443003841 / 9007199254740992)) (Fin 1)
      = Fin (8832737443003841 / 9007199254740992)"
    using fl_eval [of "- 1" "8832737443003841 / 9007199254740992"] by (simp add: rne_def)
  have sum: "jadd (Fin (1395694493897217 / 72057594037927936)) (Fin (8832737443003841 / 9007199254740992))
      = Fin (4503599627370497 / 4503599627370496)"
    using fl_eval [of 0 "1395694493897217 / 72057594037927936 + 8832737443003841 / 9007199254740992"]
        by (simp add: rne_def)
  show ?thesis
    unfolding A angle_8 n8 Math_cos_8deg c2 cc s180 angle_180_half Math_sin_quarter_turn
      sq2 m1 sum ..
qed

lemma haversine_8_0_to_minus_8_180: "haversine (Fin 8) (Fin 0) (Fin (- 8)) (Fin 180) = NaN"
proof -
  have d: "jsub (Fin 1) (Fin (4503599627370497 / 4503599627370496))
      = Fin (- (1 / 4503599627370496))"
    using fl_eval [of "- 52" "1 / 4503599627370496"] by (simp add: jsub_Fin rne_def fl_minus)
  have r: "Math_sqrt (Fin (- (1 / 4503599627370496))) = NaN"
    by simp
  show ?thesis
    unfolding haversine_def Let_def haversine_a_above_1 d r Math_atan2_NaN
    by (rule jmul_NaN_right)
qed

text \<open>
  C6. The distance is to be zero on equal points and the same in both orders,
  \<open>haversine(a, b) == haversine(b, a)\<close>, for every pair of valid coordinates. Between the
  points \<open>(8, 0)\<close> and \<open>(-8, 180)\<close>, each the antipode of the other, \<open>haversine\<close>
  returns \<open>NaN\<close> in both orders, and the two results are not \<open>==\<close>.
\<close>

theorem haversine_antipodes_NaN:
  "haversine (Fin 8) (Fin 0) (Fin (- 8)) (Fin 180) = NaN
   \<and> haversine (Fin (- 8)) (Fin 180) (Fin 8) (Fin 0) = NaN
   \<and> \<not> jeq (haversine (Fin 8) (Fin 0) (Fin (- 8)) (Fin 180))
            (haversine (Fin (- 8)) (Fin 180) (Fin 8) (Fin 0))"
  using haversine_8_0_to_minus_8_180 haversine_order [of "- 8" 180 8 0]
  by (simp add: jeq_def)

section \<open>Properties of the form's live estimates\<close>

lemma toFixed2_nonempty: "toFixed2 x \<noteq> []"
  by (cases x) (simp_all add: Let_def)

lemma parse_lat: "parseFloat_string ''-1.2864'' = Fin (- (2896715280324703 / 2251799813685248))"
  using fl_eval [of 0 "12864 / 10000"]
  by (simp add: parse_defs rne_def)

lemma parse_lng: "parseFloat_string ''36.8172'' = Fin (2590780128137891 / 70368744177664)"
  using fl_eval [of 5 "368172 / 10000"]
  by (simp add: parse_defs rne_def)

text \<open>
  With a latitude on both sides and an empty longitude the distance line shows the text
  \<open>NaN\<close>: the guard of \<open>distKm\<close> looks at the two latitudes only.
\<close>

lemma distKm_empty_longitude:
  "distKm (BLANK\<lparr>origin_latitude := ''-1.2864'', origin_longitude := ''36.8172'',
                   destination_latitude := ''-4.0435''\<rparr>) = JStr ''NaN''"
  by (simp add: distKm_def BLANK_def parseFloat_string_def haversine_def Let_def jsub_def
      jadd_NaN_right jmul_NaN_right)

lemma parseFloat_string_empty: "parseFloat_string [] = NaN"
  by (simp add: parseFloat_string_def)

text \<open>
  C7, as amended. When all four coordinate fields hold numbers the distance preview is
  present and is \<open>haversine(...).toFixed(2)\<close> of those numbers, whatever the weight
  field holds; when the origin or the destination latitude field is empty both previews
  are absent; when the weight field is empty the cost preview is absent.
\<close>

theorem previews_follow_inputs:
  "(parseFloat (JStr (origin_latitude f)) = Fin la1
      \<and> parseFloat (JStr (origin_longitude f)) = Fin lo1
      \<and> parseFloat (JStr (destination_latitude f)) = Fin la2
      \<and> parseFloat (JStr (destination_longitude f)) = Fin lo2 \<longrightarrow>
      truthy (distKm f)
      \<and> distKm f = JStr (toFixed2 (haversine (Fin la1) (Fin lo1) (Fin la2) (Fin lo2))))
   \<and> (origin_latitude f = [] \<or> destination_latitude f = [] \<longrightarrow>
        distKm f = Null \<and> costKsh f = Null)
   \<and> (weight_kg f = [] \<longrightarrow> costKsh f = Null)"
proof (intro conjI impI)
  assume h: "parseFloat (JStr (origin_latitude f)) = Fin la1
      \<and> parseFloat (JStr (origin_longitude f)) = Fin lo1
      \<and> parseFloat (JStr (destination_latitude f)) = Fin la2
      \<and> parseFloat (JStr (destination_longitude f)) = Fin lo2"
  have n1: "origin_latitude f \<noteq> []" using h parseFloat_string_empty by auto
  have n2: "destination_latitude f \<noteq> []" using h parseFloat_string_empty by auto
  show "truthy (distKm f)" using n1 n2 by (simp add: distKm_def toFixed2_nonempty)
  show "distKm f = JStr (toFixed2 (haversine (Fin la1) (Fin lo1) (Fin la2) (Fin lo2)))"
    using n1 n2 h by (simp add: distKm_def)
next
  assume "origin_latitude f = [] \<or> destination_latitude f = []"
  then show "distKm f = Null" by (auto simp: distKm_def)
next
  assume "origin_latitude f = [] \<or> destination_latitude f = []"
  then show "costKsh f = Null" by (auto simp: distKm_def costKsh_def)
next
  assume "weight_kg f = []"
  then show "costKsh f = Null" by (simp add: costKsh_def)
qed

theorem previews_follow_inputs_witness:
  "distKm (BLANK\<lparr>origin_latitude := ''-1.2864'', origin_longitude := ''36.8172'',
                   destination_latitude := ''-1.2864'', destination_longitude := ''36.8172'',
                   weight_kg := ''5.5''\<rparr>) = JStr ''0.00''
   \<and> costKsh (BLANK\<lparr>origin_latitude := ''-1.2864'', origin_longitude := ''36.8172'',
                   destination_latitude := ''-1.2864'', destination_longitude := ''36.8172'',
                   weight_kg := ''5.5''\<rparr>) = JNum (Fin 200)
   \<and> distKm (BLANK\<lparr>destination_latitude := ''-1.2864'', weight_kg := ''5.5''\<rparr>) = Null
   \<and> costKsh (BLANK\<lparr>destination_latitude := ''-1.2864'', weight_kg := ''5.5''\<rparr>) = Null
   \<and> costKsh (BLANK\<lparr>origin_latitude := ''-1.2864'', origin_longitude := ''36.8172'',
                   destination_latitude := ''-4.0435'', destination_longitude := ''39.6682''\<rparr>)
       = Null"
proof -
  have d: "distKm (BLANK\<lparr>origin_latitude := ''-1.2864'', origin_longitude := ''36.8172'',
                   destination_latitude := ''-1.2864'', destination_longitude := ''36.8172'',
                   weight_kg := ''5.5''\<rparr>) = JStr ''0.00''"
    using previews_follow_inputs
      [of "BLANK\<lparr>origin_latitude := ''-1.2864'', origin_longitude := ''36.8172'',
                   destination_latitude := ''-1.2864'', destination_longitude := ''36.8172'',
                   weight_kg := ''5.5''\<rparr>"
          "- (2896715280324703 / 2251799813685248)" "2590780128137891 / 70368744177664"
          "- (2896715280324703 / 2251799813685248)" "2590780128137891 / 70368744177664"]
    by (simp add: BLANK_def parse_lat parse_lng haversine_same show_nat.simps digit_char_def)
  have c: "costKsh (BLANK\<lparr>origin_latitude := ''-1.2864'', origin_longitude := ''36.8172'',
                   destination_latitude := ''-1.2864'', destination_longitude := ''36.8172'',
                   weight_kg := ''5.5''\<rparr>) = JNum (Fin 200)"
    unfolding costKsh_def d by (simp add: cost_defs parse_defs BLANK_def)
  have n: "distKm (BLANK\<lparr>destination_latitude := ''-1.2864'', weight_kg := ''5.5''\<rparr>) = Null
      \<and> costKsh (BLANK\<lparr>destination_latitude := ''-1.2864'', weight_kg := ''5.5''\<rparr>) = Null"
    using previews_follow_inputs
      [of "BLANK\<lparr>destination_latitude := ''-1.2864'', weight_kg := ''5.5''\<rparr>"]
    by (simp add: BLANK_def)
  have w: "costKsh (BLANK\<lparr>origin_latitude := ''-1.2864'', origin_longitude := ''36.8172'',
                   destination_latitude := ''-4.0435'', destination_longitude := ''39.6682''\<rparr>)
       = Null"
    using previews_follow_inputs
      [of "BLANK\<lparr>origin_latitude := ''-1.2864'', origin_longitude := ''36.8172'',
                   destination_latitude := ''-4.0435'', destination_longitude := ''39.6682''\<rparr>"]
    by (simp add: BLANK_def)
  show ?thesis using d c n w by simp
qed

text \<open>
  The distance preview does not depend on the weight: with both places set and the
  weight field empty, the distance line is still shown.
\<close>

theorem distance_shown_without_weight_counterexample:
  "weight_kg (BLANK\<lparr>origin_latitude := ''-1.2864'', origin_longitude := ''36.8172'',
                      destination_latitude := ''-4.0435'', destination_longitude := ''39.6682''\<rparr>)
     = []
   \<and> truthy (distKm (BLANK\<lparr>origin_latitude := ''-1.2864'', origin_longitude := ''36.8172'',
                      destination_latitude := ''-4.0435'', destination_longitude := ''39.6682''\<rparr>))"
  by (simp add: BLANK_def distKm_def toFixed2_nonempty)

section \<open>Properties of the tracking map\<close>

text \<open>
  C2. The current position is \<open>current_location\<close> when that is present; otherwise the
  last element of \<open>route\<close> when the route is non-empty; otherwise there is none (\<open>null\<close>),
  and then no driver marker is drawn at all, so none at \<open>(0, 0)\<close>.
\<close>

theorem currentPos_priority:
  "(current_location td = Some c \<longrightarrow> currentPos td = Some c)
   \<and> (current_location td = None \<longrightarrow> route td = Some r \<longrightarrow> r \<noteq> [] \<longrightarrow>
        currentPos td = Some (last r))
   \<and> (current_location td = None \<longrightarrow> (route td = None \<or> route td = Some []) \<longrightarrow>
        currentPos td = None \<and> driver_marker td = [])"
  by (auto simp: currentPos_def last_conv_nth driver_marker_def)

theorem currentPos_priority_witness:
  "currentPos
     \<lparr>shipment_id = JNum (Fin 7), tracking_number = JStr ''TRK-7'', status = JStr ''in_transit'',
      origin = None, destination = None,
      route = Some
        [\<lparr>p_lat = JNum (Fin 1), p_lng = JNum (Fin 36), timestamp = Null, speed = Null\<rparr>,
         \<lparr>p_lat = JNum (Fin 2), p_lng = JNum (Fin 37), timestamp = Null, speed = Null\<rparr>,
         \<lparr>p_lat = JNum (Fin 3), p_lng = JNum (Fin 38), timestamp = Null, speed = Null\<rparr>],
      current_location = None,
      created_at = Null, assigned_at = Null, picked_up_at = Null, delivered_at = Null\<rparr>
   = Some \<lparr>p_lat = JNum (Fin 3), p_lng = JNum (Fin 38), timestamp = Null, speed = Null\<rparr>
   \<and> driver_marker
     \<lparr>shipment_id = JNum (Fin 7), tracking_number = JStr ''TRK-7'', status = JStr ''pending'',
      origin = None, destination = None, route = Some [], current_location = None,
      created_at = Null, assigned_at = Null, picked_up_at = Null, delivered_at = Null\<rparr>
   = []
   \<and> currentPos
     \<lparr>shipment_id = JNum (Fin 7), tracking_number = JStr ''TRK-7'', status = JStr ''in_transit'',
      origin = None, destination = None,
      route = Some
        [\<lparr>p_lat = JNum (Fin 1), p_lng = JNum (Fin 36), timestamp = Null, speed = Null\<rparr>],
      current_location = Some
        \<lparr>p_lat = JNum (Fin 5), p_lng = JNum (Fin 39), timestamp = Null, speed = Null\<rparr>,
      created_at = Null, assigned_at = Null, picked_up_at = Null, delivered_at = Null\<rparr>
   = Some \<lparr>p_lat = JNum (Fin 5), p_lng = JNum (Fin 39), timestamp = Null, speed = Null\<rparr>"
proof -
  have a: "currentPos
     \<lparr>shipment_id = JNum (Fin 7), tracking_number = JStr ''TRK-7'', status = JStr ''in_transit'',
      origin = None, destination = None,
      route = Some
        [\<lparr>p_lat = JNum (Fin 1), p_lng = JNum (Fin 36), timestamp = Null, speed = Null\<rparr>,
         \<lparr>p_lat = JNum (Fin 2), p_lng = JNum (Fin 37), timestamp = Null, speed = Null\<rparr>,
         \<lparr>p_lat = JNum (Fin 3), p_lng = JNum (Fin 38), timestamp = Null, speed = Null\<rparr>],
      current_location = None,
      created_at = Null, assigned_at = Null, picked_up_at = Null, delivered_at = Null\<rparr>
   = Some \<lparr>p_lat = JNum (Fin 3), p_lng = JNum (Fin 38), timestamp = Null, speed = Null\<rparr>"
    using currentPos_priority
      [of "\<lparr>shipment_id = JNum (Fin 7), tracking_number = JStr ''TRK-7'',
            status = JStr ''in_transit'', origin = None, destination = None,
            route = Some
              [\<lparr>p_lat = JNum (Fin 1), p_lng = JNum (Fin 36), timestamp = Null, speed = Null\<rparr>,
               \<lparr>p_lat = JNum (Fin 2), p_lng = JNum (Fin 37), timestamp = Null, speed = Null\<rparr>,
               \<lparr>p_lat = JNum (Fin 3), p_lng = JNum (Fin 38), timestamp = Null, speed = Null\<rparr>],
            current_location = None,
            created_at = Null, assigned_at = Null, picked_up_at = Null, delivered_at = Null\<rparr>"
          _
          "[\<lparr>p_lat = JNum (Fin 1), p_lng = JNum (Fin 36), timestamp = Null, speed = Null\<rparr>,
            \<lparr>p_lat = JNum (Fin 2), p_lng = JNum (Fin 37), timestamp = Null, speed = Null\<rparr>,
            \<lparr>p_lat = JNum (Fin 3), p_lng = JNum (Fin 38), timestamp = Null, speed = Null\<rparr>]"]
    by simp
  have b: "driver_marker
     \<lparr>shipment_id = JNum (Fin 7), tracking_number = JStr ''TRK-7'', status = JStr ''pending'',
      origin = None, destination = None, route = Some [], current_location = None,
      created_at = Null, assigned_at = Null, picked_up_at = Null, delivered_at = Null\<rparr>
   = []"
    using currentPos_priority
      [of "\<lparr>shipment_id = JNum (Fin 7), tracking_number = JStr ''TRK-7'',
            status = JStr ''pending'', origin = None, destination = None, route = Some [],
            current_location = None,
            created_at = Null, assigned_at = Null, picked_up_at = Null, delivered_at = Null\<rparr>"]
    by simp
  have c: "currentPos
     \<lparr>shipment_id = JNum (Fin 7), tracking_number = JStr ''TRK-7'', status = JStr ''in_transit'',
      origin = None, destination = None,
      route = Some
        [\<lparr>p_lat = JNum (Fin 1), p_lng = JNum (Fin 36), timestamp = Null, speed = Null\<rparr>],
      current_location = Some
        \<lparr>p_lat = JNum (Fin 5), p_lng = JNum (Fin 39), timestamp = Null, speed = Null\<rparr>,
      created_at = Null, assigned_at = Null, picked_up_at = Null, delivered_at = Null\<rparr>
   = Some \<lparr>p_lat = JNum (Fin 5), p_lng = JNum (Fin 39), timestamp = Null, speed = Null\<rparr>"
    using currentPos_priority
      [of "\<lparr>shipment_id = JNum (Fin 7), tracking_number = JStr ''TRK-7'',
            status = JStr ''in_transit'', origin = None, destination = None,
            route = Some
              [\<lparr>p_lat = JNum (Fin 1), p_lng = JNum (Fin 36), timestamp = Null, speed = Null\<rparr>],
            current_location = Some
              \<lparr>p_lat = JNum (Fin 5), p_lng = JNum (Fin 39), timestamp = Null, speed = Null\<rparr>,
            created_at = Null, assigned_at = Null, picked_up_at = Null, delivered_at = Null\<rparr>"
          "\<lparr>p_lat = JNum (Fin 5), p_lng = JNum (Fin 39), timestamp = Null, speed = Null\<rparr>"]
    by simp
  show ?thesis using a b c by simp
qed

text \<open>
  C10. Whenever \<open>current_location\<close> is present it is the current position, whatever the
  route holds and whatever timestamps the route samples are given; no timestamp is read.
  The instance below has a last route sample with a strictly larger timestamp than
  \<open>current_location\<close>.
\<close>

theorem currentPos_ignores_timestamps:
  "current_location td = Some c \<longrightarrow>
     currentPos td = Some c
     \<and> currentPos (td\<lparr>route := Some (map (\<lambda>p. p\<lparr>timestamp := stamp p\<rparr>) r)\<rparr>) = Some c"
  by (simp add: currentPos_def)

theorem currentPos_ignores_timestamps_witness:
  "jgt (Fin 1714557900000) (Fin 1714557600000)
   \<and> currentPos
       \<lparr>shipment_id = JNum (Fin 7), tracking_number = JStr ''TRK-7'',
        status = JStr ''in_transit'', origin = None, destination = None,
        route = Some
          [\<lparr>p_lat = JNum (Fin 1), p_lng = JNum (Fin 36), timestamp = JNum (Fin 1714557300000),
            speed = Null\<rparr>,
           \<lparr>p_lat = JNum (Fin 2), p_lng = JNum (Fin 37), timestamp = JNum (Fin 1714557900000),
            speed = Null\<rparr>],
        current_location = Some
          \<lparr>p_lat = JNum (Fin 3), p_lng = JNum (Fin 38), timestamp = JNum (Fin 1714557600000),
           speed = Null\<rparr>,
        created_at = Null, assigned_at = Null, picked_up_at = Null, delivered_at = Null\<rparr>
     = Some \<lparr>p_lat = JNum (Fin 3), p_lng = JNum (Fin 38),
             timestamp = JNum (Fin 1714557600000), speed = Null\<rparr>"
  using currentPos_ignores_timestamps
    [of "\<lparr>shipment_id = JNum (Fin 7), tracking_number = JStr ''TRK-7'',
          status = JStr ''in_transit'', origin = None, destination = None,
          route = Some
            [\<lparr>p_lat = JNum (Fin 1), p_lng = JNum (Fin 36), timestamp = JNum (Fin 1714557300000),
              speed = Null\<rparr>,
             \<lparr>p_lat = JNum (Fin 2), p_lng = JNum (Fin 37), timestamp = JNum (Fin 1714557900000),
              speed = Null\<rparr>],
          current_location = Some
            \<lparr>p_lat = JNum (Fin 3), p_lng = JNum (Fin 38), timestamp = JNum (Fin 1714557600000),
             speed = Null\<rparr>,
          created_at = Null, assigned_at = Null, picked_up_at = Null, delivered_at = Null\<rparr>"
        "\<lparr>p_lat = JNum (Fin 3), p_lng = JNum (Fin 38), timestamp = JNum (Fin 1714557600000),
          speed = Null\<rparr>"]
  by simp

text \<open>
  C5. The timeline has exactly four steps, labelled Created, Assigned, Transit and
  Delivered, in that order. A step is done exactly when its timestamp field
  (\<open>created_at\<close>, \<open>assigned_at\<close>, \<open>picked_up_at\<close>, \<open>delivered_at\<close>) is present, that is
  truthy: neither \<open>null\<close> nor missing nor empty. A step is active exactly when the status
  is \<open>pending\<close>, \<open>assigned\<close>, \<open>in_transit\<close> respectively, and Delivered is never active.
  With only \<open>created_at\<close> present and status \<open>pending\<close>, Created is done and active and
  the other three are neither.
\<close>

theorem timeline_steps:
  "map label (timeline (Some td)) = [''Created'', ''Assigned'', ''Transit'', ''Delivered'']
   \<and> map done_flag (timeline (Some td))
       = [truthy (created_at td), truthy (assigned_at td), truthy (picked_up_at td),
          truthy (delivered_at td)]
   \<and> map active (timeline (Some td))
       = [status td = JStr ''pending'', status td = JStr ''assigned'',
          status td = JStr ''in_transit'', False]
   \<and> (truthy (created_at td) \<and> falsy (assigned_at td) \<and> falsy (picked_up_at td)
        \<and> falsy (delivered_at td) \<and> status td = JStr ''pending'' \<longrightarrow>
        map (\<lambda>s. (done_flag s, active s)) (timeline (Some td))
          = [(True, True), (False, False), (False, False), (False, False)])"
  by (simp add: timeline_def opt_field_def Let_def falsy_def)

theorem timeline_steps_witness:
  "map (\<lambda>s. (label s, done_flag s, active s))
     (timeline (Some
       \<lparr>shipment_id = JNum (Fin 7), tracking_number = JStr ''TRK-7'', status = JStr ''pending'',
        origin = None, destination = None, route = None, current_location = None,
        created_at = JStr ''2024-05-01T10:00:00Z'', assigned_at = Null,
        picked_up_at = Null, delivered_at = Null\<rparr>))
   = [(''Created'', True, True), (''Assigned'', False, False), (''Transit'', False, False),
      (''Delivered'', False, False)]"
proof -
  have "map (\<lambda>s. (done_flag s, active s))
     (timeline (Some
       \<lparr>shipment_id = JNum (Fin 7), tracking_number = JStr ''TRK-7'', status = JStr ''pending'',
        origin = None, destination = None, route = None, current_location = None,
        created_at = JStr ''2024-05-01T10:00:00Z'', assigned_at = Null,
        picked_up_at = Null, delivered_at = Null\<rparr>))
      = [(True, True), (False, False), (False, False), (False, False)]"
    using timeline_steps
      [of "\<lparr>shipment_id = JNum (Fin 7), tracking_number = JStr ''TRK-7'',
            status = JStr ''pending'', origin = None, destination = None, route = None,
            current_location = None, created_at = JStr ''2024-05-01T10:00:00Z'',
            assigned_at = Null, picked_up_at = Null, delivered_at = Null\<rparr>"]
    by (simp add: falsy_def)
  then show ?thesis
    by (simp add: timeline_def opt_field_def Let_def)
qed


text \<open>
  C8, as amended. When \<open>origin.lat\<close> or \<open>destination.lat\<close> is missing, \<open>null\<close> or
  \<open>NaN\<close>, \<open>buildMap\<close> returns before it touches the map, whatever Leaflet would take:
  no marker, no line and no viewport is produced, nothing is raised, and the map held so
  far is left as it is.
\<close>

theorem buildMap_needs_latitudes:
  "opt_lat (origin td) \<in> {Undefined, Null, JNum NaN}
   \<or> opt_lat (destination td) \<in> {Undefined, Null, JNum NaN} \<longrightarrow>
     buildMap accepts mapDiv (Some td) held = \<lparr>map_after = held, raised = False\<rparr>"
  by (auto simp: buildMap_def falsy_def)

theorem buildMap_needs_latitudes_witness:
  "opt_lat (Some \<lparr>lat = JNum NaN, lng = JNum (Fin 36), address = JStr ''Nairobi''\<rparr>)
     = JNum NaN
   \<and> opt_lat None = Undefined
   \<and> buildMap numbers_only True
       (Some
         \<lparr>shipment_id = JNum (Fin 7), tracking_number = JStr ''TRK-7'',
          status = JStr ''pending'',
          origin = Some \<lparr>lat = JNum NaN, lng = JNum (Fin 36), address = JStr ''Nairobi''\<rparr>,
          destination = None, route = None, current_location = None,
          created_at = Null, assigned_at = Null, picked_up_at = Null, delivered_at = Null\<rparr>)
       None
     = \<lparr>map_after = None, raised = False\<rparr>"
  using buildMap_needs_latitudes
    [of "\<lparr>shipment_id = JNum (Fin 7), tracking_number = JStr ''TRK-7'',
          status = JStr ''pending'',
          origin = Some \<lparr>lat = JNum NaN, lng = JNum (Fin 36), address = JStr ''Nairobi''\<rparr>,
          destination = None, route = None, current_location = None,
          created_at = Null, assigned_at = Null, picked_up_at = Null, delivered_at = Null\<rparr>"
        numbers_only True None]
  by (simp add: opt_lat_def)

text \<open>
  Finiteness is not inspected. With every coordinate a number and \<open>destination.lat\<close>
  infinite the guard passes, Leaflet takes every pair, and the map, both markers, the
  direct line and the viewport are produced with that latitude in them.
\<close>

theorem buildMap_infinite_latitude_counterexample:
  "buildMap numbers_only True
     (Some
       \<lparr>shipment_id = JNum (Fin 7), tracking_number = JStr ''TRK-7'', status = JStr ''pending'',
        origin = Some \<lparr>lat = JNum (Fin (- 1)), lng = JNum (Fin 36), address = JStr ''Nairobi''\<rparr>,
        destination = Some \<lparr>lat = JNum PInf, lng = JNum (Fin 39), address = JStr ''Mombasa''\<rparr>,
        route = None, current_location = None,
        created_at = Null, assigned_at = Null, picked_up_at = Null, delivered_at = Null\<rparr>)
     None
   = \<lparr>map_after = Some
        \<lparr>center = (JNum (Fin (- 1)), JNum (Fin 36)),
         layers =
           [TileLayer,
            Marker Pickup (JNum (Fin (- 1)), JNum (Fin 36)),
            Marker Delivery (JNum PInf, JNum (Fin 39)),
            Polyline Direct [(JNum (Fin (- 1)), JNum (Fin 36)), (JNum PInf, JNum (Fin 39))]],
         fit_bounds = Some [(JNum (Fin (- 1)), JNum (Fin 36)), (JNum PInf, JNum (Fin 39))]\<rparr>,
      raised = False\<rparr>"
  by (simp add: buildMap_def falsy_def opt_lat_def point_of_def driver_marker_def currentPos_def
      create_map_def add_layer_def fitBounds_def numbers_only_def)

text \<open>
  A longitude is not inspected either. With \<open>origin.lng\<close> missing the guard passes and
  the run is cut short by the exception of \<open>L.map\<close>: the held map has been removed, and
  no map, marker, line or viewport comes of it.
\<close>

lemma buildMap_missing_longitude:
  "buildMap numbers_only True
     (Some
       \<lparr>shipment_id = JNum (Fin 7), tracking_number = JStr ''TRK-7'', status = JStr ''pending'',
        origin = Some \<lparr>lat = JNum (Fin (- 1)), lng = Undefined, address = JStr ''Nairobi''\<rparr>,
        destination = Some \<lparr>lat = JNum (Fin (- 4)), lng = JNum (Fin 39), address = JStr ''Mombasa''\<rparr>,
        route = None, current_location = None,
        created_at = Null, assigned_at = Null, picked_up_at = Null, delivered_at = Null\<rparr>)
     held
   = \<lparr>map_after = None, raised = True\<rparr>"
  by (simp add: buildMap_def falsy_def opt_lat_def point_of_def driver_marker_def currentPos_def
      create_map_def add_layer_def fitBounds_def numbers_only_def)

section \<open>Properties of the ticker and the auto-refresh\<close>

lemma owned_mount: "owned (mount t ar f)"
  by (auto simp: owned_def mount_def refresh_effect_def ticker_effect_def setInterval_def)

lemma owned_rerender: "owned v \<Longrightarrow> owned (rerender ar f v)"
  by (auto simp: owned_def rerender_def refresh_effect_def setInterval_def run_cleanup_def
      clearInterval_def split: option.splits)

lemma owned_unmount: "owned v \<Longrightarrow> owned (unmount v)"
  by (auto simp: owned_def unmount_def run_cleanup_def clearInterval_def split: option.splits)

lemma owned_elapse: "owned v \<Longrightarrow> owned (elapse ms v)"
  by (auto simp: owned_def elapse_def reschedule_def Let_def)

lemma owned_step: "owned v \<Longrightarrow> owned (step e v)"
  by (cases e) (simp_all add: owned_rerender owned_unmount owned_elapse)

lemma owned_run: "owned v \<Longrightarrow> owned (run es v)"
  by (induction es arbitrary: v) (simp_all add: owned_step)

text \<open>Unmounting a view clears every interval it has registered.\<close>

lemma unmount_timers:
  assumes "owned v"
  shows "timers (unmount v) = []"
proof -
  have "\<And>p. p \<in> set (timers (unmount v)) \<Longrightarrow> False"
    using assms
    by (auto simp: owned_def unmount_def run_cleanup_def clearInterval_def
        split: option.splits if_splits)
  then show ?thesis by (cases "timers (unmount v)") auto
qed

lemma unmount_unmounted: "\<not> mounted (unmount v)"
  by (simp add: unmount_def)

lemma unmount_fired:
  "ticker_fired (unmount v) = ticker_fired v \<and> refresh_fired (unmount v) = refresh_fired v"
  by (simp add: unmount_def run_cleanup_def clearInterval_def split: option.splits)

lemma rerender_fired:
  "ticker_fired (rerender ar f v) = ticker_fired v
   \<and> refresh_fired (rerender ar f v) = refresh_fired v"
  by (simp add: rerender_def refresh_effect_def setInterval_def run_cleanup_def clearInterval_def
      split: option.splits)

text \<open>After a render with \<open>autoRefresh\<close> false no refresh interval is left.\<close>

lemma rerender_off_no_refresh:
  "owned v \<Longrightarrow> filter (\<lambda>p. cb (snd p) = Refresh_cb) (timers (rerender False f v)) = []"
  by (auto simp: owned_def rerender_def refresh_effect_def run_cleanup_def clearInterval_def
      filter_empty_conv split: option.splits)

lemma elapse_quiet:
  assumes "filter (\<lambda>p. cb (snd p) = c) (timers v) = []"
  shows "filter (\<lambda>p. cb (snd p) = c) (timers (elapse ms v)) = []"
  using assms by (auto simp: elapse_def Let_def reschedule_def filter_empty_conv)

lemma elapse_refresh_quiet:
  assumes "filter (\<lambda>p. cb (snd p) = Refresh_cb) (timers v) = []"
  shows "refresh_fired (elapse ms v) = refresh_fired v"
  using assms by (simp add: elapse_def Let_def fired_def)

lemma elapses_refresh_quiet:
  "filter (\<lambda>p. cb (snd p) = Refresh_cb) (timers v) = [] \<Longrightarrow>
   refresh_fired (run (map Elapse ds) v) = refresh_fired v"
proof (induction ds arbitrary: v)
  case Nil
  show ?case by simp
next
  case (Cons d ds)
  have "refresh_fired (run (map Elapse ds) (elapse d v)) = refresh_fired (elapse d v)"
    using Cons.prems by (intro Cons.IH elapse_quiet)
  then show ?case using Cons.prems by (simp add: elapse_refresh_quiet)
qed

text \<open>A view that is unmounted and has no interval stays so, and nothing runs in it.\<close>

lemma dead_step:
  assumes "timers v = []" and "\<not> mounted v"
  shows "timers (step e v) = [] \<and> \<not> mounted (step e v)
       \<and> ticker_fired (step e v) = ticker_fired v
       \<and> refresh_fired (step e v) = refresh_fired v"
  using assms
  by (cases e) (simp_all add: rerender_def unmount_def elapse_def Let_def fired_def)

lemma dead_run:
  "timers v = [] \<Longrightarrow> \<not> mounted v \<Longrightarrow>
   ticker_fired (run es v) = ticker_fired v \<and> refresh_fired (run es v) = refresh_fired v"
proof (induction es arbitrary: v)
  case Nil
  show ?case by simp
next
  case (Cons e es)
  have s: "timers (step e v) = [] \<and> \<not> mounted (step e v)
      \<and> ticker_fired (step e v) = ticker_fired v
      \<and> refresh_fired (step e v) = refresh_fired v"
    using Cons.prems by (rule dead_step)
  then have "ticker_fired (run es (step e v)) = ticker_fired (step e v)
      \<and> refresh_fired (run es (step e v)) = refresh_fired (step e v)"
    by (intro Cons.IH) simp_all
  with s show ?case by simp
qed

lemmas view_defs =
  mount_def rerender_def unmount_def elapse_def refresh_effect_def ticker_effect_def
  setInterval_def clearInterval_def run_cleanup_def fired_def runs_def reschedule_def

text \<open>
  C3, as amended. Take a view after any history \<open>es\<close> of renders, elapsed time and
  unmounts since it was mounted. Once it is torn down, neither the ticker callback nor
  the refresh callback runs again, whatever happens afterwards and however much time
  elapses. Once \<open>autoRefresh\<close> is rendered false, the refresh callback does not run
  again, however much time elapses.
\<close>

theorem intervals_released:
  "ticker_fired (run after (unmount (run es (mount t ar f))))
     = ticker_fired (run es (mount t ar f))
   \<and> refresh_fired (run after (unmount (run es (mount t ar f))))
     = refresh_fired (run es (mount t ar f))
   \<and> refresh_fired (run (map Elapse ds) (rerender False g (run es (mount t ar f))))
     = refresh_fired (run es (mount t ar f))"
proof -
  define v where "v = run es (mount t ar f)"
  have o: "owned v" unfolding v_def by (intro owned_run owned_mount)
  have e: "timers (unmount v) = []" using o by (rule unmount_timers)
  have ab: "ticker_fired (run after (unmount v)) = ticker_fired v
      \<and> refresh_fired (run after (unmount v)) = refresh_fired v"
    using dead_run [OF e unmount_unmounted, of after] unmount_fired [of v] by simp
  have c: "refresh_fired (run (map Elapse ds) (rerender False g v)) = refresh_fired v"
    using elapses_refresh_quiet [OF rerender_off_no_refresh [OF o, of g], of ds]
      rerender_fired [of False g v] by simp
  show ?thesis using ab c unfolding v_def by simp
qed

theorem intervals_released_witness:
  "refresh_fired (run [Elapse 65000] (mount 0 True (Some 0))) = 2
   \<and> ticker_fired (run [Elapse 65000] (mount 0 True (Some 0))) = 65
   \<and> refresh_fired
       (run [Elapse 100000, Rerender True (Some 1), Elapse 5]
          (unmount (run [Elapse 65000] (mount 0 True (Some 0))))) = 2
   \<and> ticker_fired
       (run [Elapse 100000, Rerender True (Some 1), Elapse 5]
          (unmount (run [Elapse 65000] (mount 0 True (Some 0))))) = 65
   \<and> refresh_fired
       (run (map Elapse [100000, 5])
          (rerender False (Some 0) (run [Elapse 65000] (mount 0 True (Some 0))))) = 2"
proof -
  have a: "refresh_fired (run [Elapse 65000] (mount 0 True (Some 0))) = 2
      \<and> ticker_fired (run [Elapse 65000] (mount 0 True (Some 0))) = 65"
    by (simp add: view_defs)
  show ?thesis
    using intervals_released
      [of "[Elapse 100000, Rerender True (Some 1), Elapse 5]" "[Elapse 65000]" 0 True "Some 0"
          "[100000, 5]" "Some 0"] a
    by simp
qed

text \<open>
  The ticker effect has no dependency on \<open>autoRefresh\<close>: after \<open>autoRefresh\<close> is rendered
  false the ticker callback keeps running once a second while the view is mounted.
\<close>

theorem ticker_runs_without_autoRefresh_counterexample:
  "ticker_fired (run [Elapse 5000, Rerender False (Some 0)] (mount 0 True (Some 0))) = 5
   \<and> ticker_fired
       (run [Elapse 5000, Rerender False (Some 0), Elapse 3000] (mount 0 True (Some 0))) = 8"
  by (simp add: view_defs)

end
